theory Spec2Isabelle
  imports Main
begin

section \<open>Exact decimals\<close>

text \<open>
  The amount of a Money is a Python \<^verbatim>\<open>decimal.Decimal\<close>. A finite Decimal is a sign,
  a coefficient and an exponent, and stands for \<open>(-1)^sign * coeff * 10^exp\<close>.
  The amount of a Money is finite here, as in the data model of the specification; a
  NaN or an infinity appears only as the amount argument of the constructor.
  Arithmetic runs in Python's default context: 28 significant digits, rounding half to
  even, exponents between -999999 and 999999.
\<close>

datatype decimal = Dec (dsign: bool) (dcoeff: nat) (dexp: int)

datatype error =
    InvalidOperation
  | Overflow
  | DivisionByZero
  | ValueError
  | OverflowError
  | CurrencyDoesNotExist
  | CurrencyMismatch
  | TypeError
  | KeyError
  | ConversionFailure
  | ReferenceError

definition context_prec :: nat where "context_prec = 28"
definition context_Emax :: int where "context_Emax = 999999"
definition context_Emin :: int where "context_Emin = - 999999"
definition context_Etiny :: int where "context_Etiny = context_Emin - int context_prec + 1"
definition context_Etop :: int where "context_Etop = context_Emax - int context_prec + 1"

text \<open>The signed integer \<open>(-1)^sign * coeff\<close>.\<close>

definition signed :: "bool \<Rightarrow> nat \<Rightarrow> int" where
  "signed s c = (if s then - int c else int c)"

text \<open>\<^verbatim>\<open>Decimal(i)\<close> for a Python int.\<close>

definition Decimal_of_int :: "int \<Rightarrow> decimal" where
  "Decimal_of_int i = Dec (i < 0) (nat \<bar>i\<bar>) 0"

text \<open>
  \<^verbatim>\<open>math.trunc(d)\<close>, which is \<^verbatim>\<open>Decimal.__int__\<close>: the coefficient is shifted
  by the exponent, digits after the point are dropped, then the sign is applied.
\<close>

definition math_trunc :: "decimal \<Rightarrow> int" where
  "math_trunc d =
     (if 0 \<le> dexp d then signed (dsign d) (dcoeff d * 10 ^ nat (dexp d))
      else signed (dsign d) (dcoeff d div 10 ^ nat (- dexp d)))"

text \<open>Python's \<^verbatim>\<open>==\<close> on two finite Decimals compares their values.\<close>

definition dec_eq :: "decimal \<Rightarrow> decimal \<Rightarrow> bool" where
  "dec_eq a b =
     (let e = min (dexp a) (dexp b)
      in signed (dsign a) (dcoeff a) * 10 ^ nat (dexp a - e) =
         signed (dsign b) (dcoeff b) * 10 ^ nat (dexp b - e))"

text \<open>The number of digits of a coefficient, \<^verbatim>\<open>len(self._int)\<close>.\<close>

fun ndigits :: "nat \<Rightarrow> nat" where
  "ndigits c = (if c < 10 then 1 else Suc (ndigits (c div 10)))"

declare ndigits.simps [simp del]

definition adjusted :: "decimal \<Rightarrow> int" where
  "adjusted d = dexp d + int (ndigits (dcoeff d)) - 1"

text \<open>The coefficient \<open>c\<close> without its last \<open>k\<close> digits, rounded half to even.\<close>

definition round_half_even :: "nat \<Rightarrow> nat \<Rightarrow> nat" where
  "round_half_even c k =
     (let q = c div 10 ^ k; r = c mod 10 ^ k
      in if 10 ^ k < 2 * r \<or> (2 * r = 10 ^ k \<and> odd q) then q + 1 else q)"

text \<open>\<^verbatim>\<open>Decimal._rescale\<close> with the context's rounding: the same value at exponent \<open>e\<close>.\<close>

definition rescale :: "decimal \<Rightarrow> int \<Rightarrow> decimal" where
  "rescale d e =
     (if dcoeff d = 0 then Dec (dsign d) 0 e
      else if e \<le> dexp d then Dec (dsign d) (dcoeff d * 10 ^ nat (dexp d - e)) e
      else Dec (dsign d) (round_half_even (dcoeff d) (nat (e - dexp d))) e)"

text \<open>
  \<^verbatim>\<open>Decimal._fix\<close>: the result of an operation is brought into the context. A
  coefficient of more than 28 digits is rounded, an exponent beyond the context's range
  raises Overflow (the default context traps it).
\<close>

definition dec_fix :: "decimal \<Rightarrow> error + decimal" where
  "dec_fix d =
     (let s = dsign d; c = dcoeff d; e = dexp d
      in if c = 0 then Inr (Dec s 0 (min (max e context_Etiny) context_Emax))
         else
           (let exp_min0 = int (ndigits c) + e - int context_prec
            in if context_Etop < exp_min0 then Inl Overflow
               else
                 (let exp_min = max exp_min0 context_Etiny
                  in if e < exp_min then
                       (let c1 = round_half_even c (nat (exp_min - e));
                            c2 = (if context_prec < ndigits c1 then c1 div 10 else c1);
                            e2 = (if context_prec < ndigits c1 then exp_min + 1 else exp_min)
                        in if context_Etop < e2 then Inl Overflow else Inr (Dec s c2 e2))
                     else Inr d)))"

text \<open>\<^verbatim>\<open>Decimal.__add__\<close>: the exact sum at the smaller exponent, then \<open>dec_fix\<close>.\<close>

definition dec_add :: "decimal \<Rightarrow> decimal \<Rightarrow> error + decimal" where
  "dec_add a b =
     (let e = min (dexp a) (dexp b);
          v = signed (dsign a) (dcoeff a) * 10 ^ nat (dexp a - e) +
              signed (dsign b) (dcoeff b) * 10 ^ nat (dexp b - e)
      in dec_fix (if v = 0 then Dec (dsign a \<and> dsign b) 0 e else Dec (v < 0) (nat \<bar>v\<bar>) e))"

text \<open>\<^verbatim>\<open>Decimal.__sub__\<close>: the sum with the operand of opposite sign.\<close>

definition dec_sub :: "decimal \<Rightarrow> decimal \<Rightarrow> error + decimal" where
  "dec_sub a b = dec_add a (Dec (\<not> dsign b) (dcoeff b) (dexp b))"

text \<open>\<^verbatim>\<open>Decimal.__mul__\<close>.\<close>

definition dec_mul :: "decimal \<Rightarrow> decimal \<Rightarrow> error + decimal" where
  "dec_mul a b = dec_fix (Dec (dsign a \<noteq> dsign b) (dcoeff a * dcoeff b) (dexp a + dexp b))"

text \<open>
  \<^verbatim>\<open>Decimal.__truediv__\<close>: the quotient to one digit more than the precision, a sticky
  digit when it is inexact, trailing zeros removed up to the ideal exponent when it is
  exact.
\<close>

function strip_zeros :: "nat \<Rightarrow> int \<Rightarrow> int \<Rightarrow> nat \<times> int" where
  "strip_zeros coeff e ideal =
     (if e < ideal \<and> coeff mod 10 = 0 then strip_zeros (coeff div 10) (e + 1) ideal
      else (coeff, e))"
  by pat_completeness auto
termination
  by (relation "measure (\<lambda>(coeff, e, ideal). nat (ideal - e))") auto

declare strip_zeros.simps [simp del]

definition dec_div :: "decimal \<Rightarrow> decimal \<Rightarrow> error + decimal" where
  "dec_div a b =
     (let sign = (dsign a \<noteq> dsign b)
      in if dcoeff b = 0 then (if dcoeff a = 0 then Inl InvalidOperation else Inl DivisionByZero)
         else if dcoeff a = 0 then dec_fix (Dec sign 0 (dexp a - dexp b))
         else
           (let shift = int (ndigits (dcoeff b)) - int (ndigits (dcoeff a)) + int context_prec + 1;
                e = dexp a - dexp b - shift;
                num = (if 0 \<le> shift then dcoeff a * 10 ^ nat shift else dcoeff a);
                den = (if 0 \<le> shift then dcoeff b else dcoeff b * 10 ^ nat (- shift));
                q = num div den;
                r = num mod den;
                (coeff, e') = (if r \<noteq> 0 then (if q mod 5 = 0 then q + 1 else q, e)
                               else strip_zeros q e (dexp a - dexp b))
            in dec_fix (Dec sign coeff e')))"

text \<open>
  \<^verbatim>\<open>Decimal.quantize\<close> to the exponent \<open>e\<close>: the value rounded half to even at that
  exponent. It raises InvalidOperation when the exponent is outside the context or the
  result needs more than 28 digits.
\<close>

definition quantize :: "decimal \<Rightarrow> int \<Rightarrow> error + decimal" where
  "quantize d e =
     (if \<not> (context_Etiny \<le> e \<and> e \<le> context_Emax) then Inl InvalidOperation
      else if dcoeff d = 0 then dec_fix (Dec (dsign d) 0 e)
      else if context_Emax < adjusted d then Inl InvalidOperation
      else if int context_prec < adjusted d - e + 1 then Inl InvalidOperation
      else
        (let ans = rescale d e
         in if context_Emax < adjusted ans then Inl InvalidOperation
            else if context_prec < ndigits (dcoeff ans) then Inl InvalidOperation
            else dec_fix ans))"

text \<open>
  The builtin \<^verbatim>\<open>round(d, n)\<close> on a Decimal. Without \<open>n\<close> the result is a Python int,
  the nearest integer with ties to even; with \<open>n\<close> it is \<^verbatim>\<open>d.quantize(Decimal('1E-n'))\<close>.
\<close>

datatype rounded = RoundedInt int | RoundedDecimal decimal

definition py_round :: "decimal \<Rightarrow> int option \<Rightarrow> error + rounded" where
  "py_round d n =
     (case n of
        None \<Rightarrow> Inr (RoundedInt (math_trunc (rescale d 0)))
      | Some k \<Rightarrow> (case quantize d (- k) of Inl e \<Rightarrow> Inl e | Inr q \<Rightarrow> Inr (RoundedDecimal q)))"

subsection \<open>Strings of digits\<close>

definition is_digit :: "char \<Rightarrow> bool" where
  "is_digit c = (c \<in> set ''0123456789'')"

definition digit_val :: "char \<Rightarrow> nat" where
  "digit_val c = of_char c - 48"

definition digit_char :: "nat \<Rightarrow> char" where
  "digit_char d = ''0123456789'' ! d"

fun str_nat :: "nat \<Rightarrow> string" where
  "str_nat n = (if n < 10 then [digit_char n] else str_nat (n div 10) @ [digit_char (n mod 10)])"

declare str_nat.simps [simp del]

text \<open>
  \<^verbatim>\<open>str(i)\<close> for a Python int: the decimal numeral of \<open>i\<close>, of any length. Later
  CPython releases can cap the length of this conversion
  (\<^verbatim>\<open>sys.set_int_max_str_digits\<close>); the cap is a setting of the interpreter and is
  taken as switched off.
\<close>

definition str_int :: "int \<Rightarrow> string" where
  "str_int i = (if i < 0 then CHR ''-'' # str_nat (nat (- i)) else str_nat (nat i))"

definition int_of_digits :: "string \<Rightarrow> nat" where
  "int_of_digits ds = foldl (\<lambda>a c. 10 * a + digit_val c) 0 ds"

subsection \<open>Parsing a numeric string\<close>

text \<open>
  \<^verbatim>\<open>Decimal(s)\<close> for a string. A character is a code point below 256. Whitespace
  around the text is stripped and underscores are removed; then an optional sign, and
  either digits with an optional fractional part (at least one digit in all) and an
  optional exponent, or the spelling of an infinity or of a NaN, in any case of letters.
  The conversion of a number is exact, and it raises InvalidOperation when the exponent is
  outside the limits of the C implementation of the decimal module on a 64-bit build.
  The spelling of an infinity or a NaN gives that special value and raises nothing. Any
  other string raises InvalidOperation.
\<close>

datatype special = NaN (nan_sign: bool) (signaling: bool) (payload: nat) | Infinity (inf_sign: bool)

datatype pydecimal = Finite decimal | NonFinite special

definition MAX_EMAX :: int where "MAX_EMAX = 999999999999999999"
definition MIN_ETINY :: int where "MIN_ETINY = - 1999999999999999997"

definition is_space :: "char \<Rightarrow> bool" where
  "is_space c =
     (c \<in> set [CHR 0x09, CHR 0x0A, CHR 0x0B, CHR 0x0C, CHR 0x0D, CHR 0x1C, CHR 0x1D, CHR 0x1E,
                CHR 0x1F, CHR '' '', CHR 0x85, CHR 0xA0])"

definition strip :: "string \<Rightarrow> string" where
  "strip s = rev (dropWhile is_space (rev (dropWhile is_space s)))"

definition lower_char :: "char \<Rightarrow> char" where
  "lower_char c =
     (case map_of (zip ''ABCDEFGHIJKLMNOPQRSTUVWXYZ'' ''abcdefghijklmnopqrstuvwxyz'') c of
        None \<Rightarrow> c
      | Some l \<Rightarrow> l)"

definition upper_char :: "char \<Rightarrow> char" where
  "upper_char c =
     (case map_of (zip ''abcdefghijklmnopqrstuvwxyz'' ''ABCDEFGHIJKLMNOPQRSTUVWXYZ'') c of
        None \<Rightarrow> c
      | Some u \<Rightarrow> u)"

text \<open>\<^verbatim>\<open>s.upper()\<close> and \<^verbatim>\<open>s.lower()\<close> on ASCII text.\<close>

definition upper :: "string \<Rightarrow> string" where
  "upper s = map upper_char s"

definition lower :: "string \<Rightarrow> string" where
  "lower s = map lower_char s"

definition parse_sign :: "string \<Rightarrow> bool \<times> string" where
  "parse_sign s =
     (case s of
        [] \<Rightarrow> (False, [])
      | c # r \<Rightarrow> if c = CHR ''-'' then (True, r) else if c = CHR ''+'' then (False, r) else (False, s))"

definition special_text :: "bool \<Rightarrow> string \<Rightarrow> special option" where
  "special_text neg s =
     (let l = lower s;
          n = (if take 1 l = ''s'' then drop 1 l else l)
      in if l = ''inf'' \<or> l = ''infinity'' then Some (Infinity neg)
         else if take 3 n = ''nan'' \<and> list_all is_digit (drop 3 n)
         then Some (NaN neg (take 1 l = ''s'') (int_of_digits (drop 3 n)))
         else None)"

definition parse_exponent :: "string \<Rightarrow> error + int" where
  "parse_exponent r =
     (case r of
        [] \<Rightarrow> Inr 0
      | c # t \<Rightarrow>
          if c = CHR ''e'' \<or> c = CHR ''E'' then
            (let (neg, ds) = parse_sign t
             in if ds \<noteq> [] \<and> list_all is_digit ds then Inr (signed neg (int_of_digits ds))
                else Inl InvalidOperation)
          else Inl InvalidOperation)"

definition Decimal_of_str :: "string \<Rightarrow> error + pydecimal" where
  "Decimal_of_str s0 =
     (let s = filter (\<lambda>c. c \<noteq> CHR ''_'') (strip s0);
          (neg, s1) = parse_sign s;
          intpart = takeWhile is_digit s1;
          r1 = dropWhile is_digit s1;
          frac = (case r1 of [] \<Rightarrow> [] | c # t \<Rightarrow> if c = CHR ''.'' then takeWhile is_digit t else []);
          r2 = (case r1 of [] \<Rightarrow> [] | c # t \<Rightarrow> if c = CHR ''.'' then dropWhile is_digit t else r1)
      in if intpart = [] \<and> frac = [] then
           (case special_text neg s1 of
              Some k \<Rightarrow> Inr (NonFinite k)
            | None \<Rightarrow> Inl InvalidOperation)
         else
           (case parse_exponent r2 of
              Inl e \<Rightarrow> Inl e
            | Inr ex \<Rightarrow>
                (let c = int_of_digits (intpart @ frac);
                     e = ex - int (length frac)
                 in if MAX_EMAX < e + int (ndigits c) - 1 \<or> e < MIN_ETINY then Inl InvalidOperation
                    else Inr (Finite (Dec neg c e)))))"

section \<open>Settings, currencies and Money\<close>

text \<open>
  The module reads its configuration from \<^verbatim>\<open>djmoney.settings\<close> and from Django's
  settings; the values are parameters here. A per-currency table that is not a dict is
  \<open>None\<close>. \<open>CURRENCIES\<close> holds the codes known to the currency registry of
  py-moneyed.
\<close>

record settings =
  DECIMAL_PLACES :: int
  DECIMAL_PLACES_PER_CURRENCY :: "(string \<rightharpoonup> int) option"
  DISPLAY_DECIMAL_PLACES_PER_CURRENCY :: "(string \<rightharpoonup> int) option"
  AUTO_CONVERT_MONEY :: bool
  CURRENCIES :: "string set"
  LANGUAGE_CODE :: string

datatype currency = Currency (code: string)

record money =
  amount :: decimal
  currency :: currency
  amount_decimal_places :: int
  display_decimal_places :: int

definition DEFAULT_CURRENCY_CODE :: string where
  "DEFAULT_CURRENCY_CODE = ''XYZ''"

text \<open>The default of the \<^verbatim>\<open>amount\<close> parameter, \<^verbatim>\<open>Decimal('0.0')\<close>.\<close>

definition default_amount :: "error + pydecimal" where
  "default_amount = Decimal_of_str ''0.0''"

text \<open>
  The arguments of the constructor. An amount is a Decimal, finite or not, an int, or
  something else that enters only through its \<^verbatim>\<open>str()\<close>: a string, or a float as
  Python prints it. A currency is a \<^verbatim>\<open>Currency\<close> or a code.
\<close>

datatype amount_arg = AmountDecimal pydecimal | AmountInt int | AmountText string

datatype currency_arg = CurrencyObj currency | CurrencyCode string

definition str_amount :: "amount_arg \<Rightarrow> string" where
  "str_amount a = (case a of AmountInt i \<Rightarrow> str_int i | AmountText s \<Rightarrow> s | AmountDecimal d \<Rightarrow> [])"

text \<open>\<^verbatim>\<open>moneyed.get_currency\<close>: a lookup in the registry, which raises on an unknown code.\<close>

definition get_currency :: "settings \<Rightarrow> string \<Rightarrow> error + currency" where
  "get_currency cfg c = (if c \<in> CURRENCIES cfg then Inr (Currency c) else Inl CurrencyDoesNotExist)"

text \<open>
  The \<^verbatim>\<open>try\<close> block of the constructor. Both table lookups stand in one block, so a
  KeyError of the first leaves the block before the second is reached. The result is the
  pair of attributes after the block, starting from the class attributes.
\<close>

definition lookup_places :: "(string \<rightharpoonup> int) \<Rightarrow> string \<Rightarrow> error + int" where
  "lookup_places table c = (case table c of None \<Rightarrow> Inl KeyError | Some v \<Rightarrow> Inr v)"

definition places_override :: "settings \<Rightarrow> string \<Rightarrow> int \<times> int \<Rightarrow> int \<times> int" where
  "places_override cfg c attrs =
     (let (adp, ddp) = attrs;
          step1 = (case DECIMAL_PLACES_PER_CURRENCY cfg of
                     None \<Rightarrow> Inr adp
                   | Some table \<Rightarrow> lookup_places table c)
      in case step1 of
           Inl e \<Rightarrow> (adp, ddp)
         | Inr adp' \<Rightarrow>
             (case (case DISPLAY_DECIMAL_PLACES_PER_CURRENCY cfg of
                      None \<Rightarrow> Inr ddp
                    | Some table \<Rightarrow> lookup_places table c) of
                Inl e \<Rightarrow> (adp', ddp)
              | Inr ddp' \<Rightarrow> (adp', ddp')))"

text \<open>
  \<^verbatim>\<open>Money.__init__\<close>. Its first statement, \<^verbatim>\<open>Decimal(str(amount))\<close> for an amount
  that is not a Decimal, is \<open>normalize_amount\<close>: a Decimal stays as it is, also a NaN
  or an infinity. The second statement resolves the currency.
\<close>

definition normalize_amount :: "amount_arg \<Rightarrow> error + pydecimal" where
  "normalize_amount amount0 =
     (case amount0 of
        AmountDecimal d \<Rightarrow> Inr d
      | _ \<Rightarrow> Decimal_of_str (str_amount amount0))"

definition resolve_currency :: "settings \<Rightarrow> currency_arg \<Rightarrow> error + currency" where
  "resolve_currency cfg currency0 =
     (case currency0 of
        CurrencyObj c \<Rightarrow> Inr c
      | CurrencyCode s \<Rightarrow> get_currency cfg (upper s))"

text \<open>
  The constructor from its second statement on, where the amount is a finite Decimal.
  This is how the methods of the class reach it: they pass the Decimal they computed.
\<close>

definition Money_init_Decimal :: "settings \<Rightarrow> decimal \<Rightarrow> currency_arg \<Rightarrow> error + money" where
  "Money_init_Decimal cfg amount1 currency0 =
     (case resolve_currency cfg currency0 of
        Inl e \<Rightarrow> Inl e
      | Inr cur \<Rightarrow>
          (let (adp, ddp) = places_override cfg (code cur) (DECIMAL_PLACES cfg, DECIMAL_PLACES cfg);
               amount2 = (if adp = 0 then Decimal_of_int (math_trunc amount1) else amount1)
           in Inr \<lparr>amount = amount2, currency = cur,
                   amount_decimal_places = adp, display_decimal_places = ddp\<rparr>))"

text \<open>
  The whole constructor. What it builds is a Money, or, when the amount is a NaN or an
  infinity (given as a Decimal or spelled by the text) and \<open>amount_decimal_places\<close> is
  not 0, an instance that holds that special value: \<open>BuiltNonFinite\<close> with the value,
  the currency and the two precision attributes. With \<open>amount_decimal_places\<close> 0,
  \<^verbatim>\<open>math.trunc\<close> raises ValueError on a NaN and OverflowError on an infinity.
\<close>

datatype constructed = Built money | BuiltNonFinite special currency int int

definition trunc_error :: "special \<Rightarrow> error" where
  "trunc_error k = (case k of NaN sg sn pl \<Rightarrow> ValueError | Infinity sg \<Rightarrow> OverflowError)"

definition Money_init :: "settings \<Rightarrow> amount_arg \<Rightarrow> currency_arg \<Rightarrow> error + constructed" where
  "Money_init cfg amount0 currency0 =
     (case normalize_amount amount0 of
        Inl e \<Rightarrow> Inl e
      | Inr (Finite amount1) \<Rightarrow>
          (case Money_init_Decimal cfg amount1 currency0 of
             Inl e \<Rightarrow> Inl e
           | Inr m \<Rightarrow> Inr (Built m))
      | Inr (NonFinite k) \<Rightarrow>
          (case resolve_currency cfg currency0 of
             Inl e \<Rightarrow> Inl e
           | Inr cur \<Rightarrow>
               (let (adp, ddp) = places_override cfg (code cur) (DECIMAL_PLACES cfg, DECIMAL_PLACES cfg)
                in if adp = 0 then Inl (trunc_error k)
                   else Inr (BuiltNonFinite k cur adp ddp))))"

text \<open>\<^verbatim>\<open>Money()\<close>: both parameters take their defaults.\<close>

definition Money_default :: "settings \<Rightarrow> error + constructed" where
  "Money_default cfg =
     (case default_amount of
        Inl e \<Rightarrow> Inl e
      | Inr d \<Rightarrow> Money_init cfg (AmountDecimal d) (CurrencyCode DEFAULT_CURRENCY_CODE))"

section \<open>Arithmetic\<close>

text \<open>
  The right operand of an operator: a deferred expression (Django's \<^verbatim>\<open>F\<close>), a Money
  or a number. The result: a Money built by the constructor, the receiver itself, or the
  deferred expression that a reflected operator of \<^verbatim>\<open>F\<close> returns. The reflected
  operators belong to Django and are parameters.
\<close>

datatype 'f operand = OpF 'f | OpMoney money | OpDecimal decimal | OpInt int

datatype 'e outcome = ResMoney money | ResSelf | ResExpr 'e

record ('f, 'e) reflected =
  radd :: "'f \<Rightarrow> money \<Rightarrow> 'e"
  rsub :: "'f \<Rightarrow> money \<Rightarrow> 'e"
  rmul :: "'f \<Rightarrow> money \<Rightarrow> 'e"
  rtruediv :: "'f \<Rightarrow> money \<Rightarrow> 'e"

text \<open>
  \<^verbatim>\<open>convert_money\<close> of \<^verbatim>\<open>djmoney.contrib.exchange\<close> is a parameter: the conversion
  hook. Each call is recorded with its arguments, so that a result comes with the list of
  the calls made to the hook.
\<close>

type_synonym 'f hook = "'f operand \<Rightarrow> currency \<Rightarrow> error + 'f operand"

type_synonym 'f calls = "('f operand \<times> currency) list"

text \<open>\<^verbatim>\<open>maybe_convert\<close>.\<close>

definition maybe_convert ::
  "settings \<Rightarrow> 'f hook \<Rightarrow> 'f operand \<Rightarrow> currency \<Rightarrow> (error + 'f operand) \<times> 'f calls" where
  "maybe_convert cfg convert_money val cur =
     (if AUTO_CONVERT_MONEY cfg then (convert_money val cur, [(val, cur)])
      else (Inr val, []))"

subsection \<open>The base class\<close>

text \<open>
  Modelled from the spec: the operators of the base class \<^verbatim>\<open>moneyed.Money\<close>, which
  the methods reach through \<^verbatim>\<open>super()\<close> and which is not part of the source. Addition
  and subtraction of a Money of the same currency give a Money of the decimal sum or
  difference, built by the constructor of the receiver's class; with differing currencies
  they fail with CurrencyMismatch. An operand that is not a Money is rejected, except a
  zero, which py-moneyed answers with the receiver. Multiplication and division scale
  the amount by a number and fail on a Money operand.
\<close>

definition base_construct :: "settings \<Rightarrow> error + decimal \<Rightarrow> currency \<Rightarrow> error + 'e outcome" where
  "base_construct cfg r cur =
     (case r of
        Inl e \<Rightarrow> Inl e
      | Inr d \<Rightarrow>
          (case Money_init_Decimal cfg d (CurrencyObj cur) of
             Inl e \<Rightarrow> Inl e
           | Inr m \<Rightarrow> Inr (ResMoney m)))"

definition base_add :: "settings \<Rightarrow> money \<Rightarrow> 'f operand \<Rightarrow> error + 'e outcome" where
  "base_add cfg self other =
     (case other of
        OpInt i \<Rightarrow> if i = 0 then Inr ResSelf else Inl TypeError
      | OpDecimal d \<Rightarrow> if dcoeff d = 0 then Inr ResSelf else Inl TypeError
      | OpF f \<Rightarrow> Inl TypeError
      | OpMoney m \<Rightarrow>
          if currency self = currency m
          then base_construct cfg (dec_add (amount self) (amount m)) (currency self)
          else Inl CurrencyMismatch)"

definition base_sub :: "settings \<Rightarrow> money \<Rightarrow> 'f operand \<Rightarrow> error + 'e outcome" where
  "base_sub cfg self other =
     (case other of
        OpInt i \<Rightarrow> if i = 0 then Inr ResSelf else Inl TypeError
      | OpDecimal d \<Rightarrow> if dcoeff d = 0 then Inr ResSelf else Inl TypeError
      | OpF f \<Rightarrow> Inl TypeError
      | OpMoney m \<Rightarrow>
          if currency self = currency m
          then base_construct cfg (dec_sub (amount self) (amount m)) (currency self)
          else Inl CurrencyMismatch)"

definition force_decimal :: "'f operand \<Rightarrow> error + decimal" where
  "force_decimal other =
     (case other of
        OpDecimal d \<Rightarrow> Inr d
      | OpInt i \<Rightarrow> Inr (Decimal_of_int i)
      | _ \<Rightarrow> Inl TypeError)"

definition base_mul :: "settings \<Rightarrow> money \<Rightarrow> 'f operand \<Rightarrow> error + 'e outcome" where
  "base_mul cfg self other =
     (case force_decimal other of
        Inl e \<Rightarrow> Inl e
      | Inr d \<Rightarrow> base_construct cfg (dec_mul (amount self) d) (currency self))"

definition base_truediv :: "settings \<Rightarrow> money \<Rightarrow> 'f operand \<Rightarrow> error + 'e outcome" where
  "base_truediv cfg self other =
     (case force_decimal other of
        Inl e \<Rightarrow> Inl e
      | Inr d \<Rightarrow> base_construct cfg (dec_div (amount self) d) (currency self))"

subsection \<open>The operators of Money\<close>

text \<open>\<^verbatim>\<open>Money.__add__\<close>, \<^verbatim>\<open>__sub__\<close>, \<^verbatim>\<open>__mul__\<close> and \<^verbatim>\<open>__truediv__\<close>.\<close>

definition Money_add ::
  "settings \<Rightarrow> ('f, 'e) reflected \<Rightarrow> 'f hook \<Rightarrow> money \<Rightarrow> 'f operand \<Rightarrow> (error + 'e outcome) \<times> 'f calls" where
  "Money_add cfg fops convert_money self other =
     (case other of
        OpF f \<Rightarrow> (Inr (ResExpr (radd fops f self)), [])
      | _ \<Rightarrow>
          (let (r, calls) = maybe_convert cfg convert_money other (currency self)
           in case r of
                Inl e \<Rightarrow> (Inl e, calls)
              | Inr other' \<Rightarrow> (base_add cfg self other', calls)))"

definition Money_sub ::
  "settings \<Rightarrow> ('f, 'e) reflected \<Rightarrow> 'f hook \<Rightarrow> money \<Rightarrow> 'f operand \<Rightarrow> (error + 'e outcome) \<times> 'f calls" where
  "Money_sub cfg fops convert_money self other =
     (case other of
        OpF f \<Rightarrow> (Inr (ResExpr (rsub fops f self)), [])
      | _ \<Rightarrow>
          (let (r, calls) = maybe_convert cfg convert_money other (currency self)
           in case r of
                Inl e \<Rightarrow> (Inl e, calls)
              | Inr other' \<Rightarrow> (base_sub cfg self other', calls)))"

definition Money_mul ::
  "settings \<Rightarrow> ('f, 'e) reflected \<Rightarrow> 'f hook \<Rightarrow> money \<Rightarrow> 'f operand \<Rightarrow> (error + 'e outcome) \<times> 'f calls" where
  "Money_mul cfg fops convert_money self other =
     (case other of
        OpF f \<Rightarrow> (Inr (ResExpr (rmul fops f self)), [])
      | _ \<Rightarrow> (base_mul cfg self other, []))"

definition Money_truediv ::
  "settings \<Rightarrow> ('f, 'e) reflected \<Rightarrow> 'f hook \<Rightarrow> money \<Rightarrow> 'f operand \<Rightarrow> (error + 'e outcome) \<times> 'f calls" where
  "Money_truediv cfg fops convert_money self other =
     (case other of
        OpF f \<Rightarrow> (Inr (ResExpr (rtruediv fops f self)), [])
      | _ \<Rightarrow> (base_truediv cfg self other, []))"

text \<open>
  \<^verbatim>\<open>Money.__round__\<close>: the rounded amount goes through the constructor, with the
  currency of the receiver. When the rounded amount is an int \<open>i\<close>, the first statement
  of the constructor makes it \<^verbatim>\<open>Decimal(str(i))\<close>, which is \<^verbatim>\<open>Decimal(i)\<close>
  (\<open>Decimal_of_str_str_int\<close>); \<open>Money_round_constructor\<close> relates this definition to
  \<open>Money_init\<close>.
\<close>

definition Money_round :: "settings \<Rightarrow> money \<Rightarrow> int option \<Rightarrow> error + money" where
  "Money_round cfg self n =
     (case py_round (amount self) n of
        Inl e \<Rightarrow> Inl e
      | Inr (RoundedInt i) \<Rightarrow> Money_init_Decimal cfg (Decimal_of_int i) (CurrencyObj (currency self))
      | Inr (RoundedDecimal d) \<Rightarrow> Money_init_Decimal cfg d (CurrencyObj (currency self)))"

section \<open>Locale resolution\<close>

text \<open>
  \<^verbatim>\<open>get_current_locale\<close>. Django's \<^verbatim>\<open>translation.to_locale\<close> is a parameter, and so
  are the answer of \<^verbatim>\<open>translation.get_language()\<close> (\<open>None\<close> when no language is
  active) and the keys of \<^verbatim>\<open>_FORMATTER.formatting_definitions\<close>.
\<close>

definition get_current_locale ::
  "settings \<Rightarrow> (string \<Rightarrow> string) \<Rightarrow> string option \<Rightarrow> string set \<Rightarrow> string" where
  "get_current_locale cfg to_locale get_language formatting_definitions =
     (let language = (case get_language of
                        None \<Rightarrow> LANGUAGE_CODE cfg
                      | Some l \<Rightarrow> if l = [] then LANGUAGE_CODE cfg else l);
          locale = to_locale language
      in if upper locale \<in> formatting_definitions then locale
         else
           (let locale' = upper (locale @ ''_'' @ locale)
            in if locale' \<in> formatting_definitions then locale' else []))"

text \<open>
  Django's \<^verbatim>\<open>to_locale\<close>, for the examples: \<^verbatim>\<open>en-us\<close> becomes \<^verbatim>\<open>en_US\<close>, a name
  without a dash is lower-cased.
\<close>

definition to_locale :: "string \<Rightarrow> string" where
  "to_locale language =
     (let lang = takeWhile (\<lambda>c. c \<noteq> CHR ''-'') language;
          rest = dropWhile (\<lambda>c. c \<noteq> CHR ''-'') language
      in case rest of
           [] \<Rightarrow> lower language
         | dash # country \<Rightarrow>
             if 2 < length country
             then lower lang @ ''_'' @ upper (take 1 country) @ lower (drop 1 country)
             else lower lang @ ''_'' @ upper country)"


section \<open>Notions of the specification\<close>

text \<open>
  Truncation toward zero, in the words of the specification: the integer \<open>z\<close> has the
  sign of the decimal and \<open>\<bar>z\<bar> \<le> \<bar>d\<bar> < \<bar>z\<bar> + 1\<close>. Both sides are scaled by a power of
  ten, so that the comparison stays in the integers.
\<close>

definition truncation_toward_zero :: "decimal \<Rightarrow> int \<Rightarrow> bool" where
  "truncation_toward_zero d z =
     ((if dsign d then z \<le> 0 else 0 \<le> z) \<and>
      \<bar>z\<bar> * 10 ^ nat (- dexp d) \<le> int (dcoeff d) * 10 ^ nat (dexp d) \<and>
      int (dcoeff d) * 10 ^ nat (dexp d) < (\<bar>z\<bar> + 1) * 10 ^ nat (- dexp d))"

section \<open>Example configurations\<close>

text \<open>Two decimal places by default, none for the yen, conversion switched off.\<close>

definition yen_settings :: settings where
  "yen_settings =
     \<lparr>DECIMAL_PLACES = 2,
      DECIMAL_PLACES_PER_CURRENCY = Some [''JPY'' \<mapsto> 0],
      DISPLAY_DECIMAL_PLACES_PER_CURRENCY = Some [''JPY'' \<mapsto> 0],
      AUTO_CONVERT_MONEY = False,
      CURRENCIES = {''XYZ'', ''USD'', ''EUR'', ''JPY''},
      LANGUAGE_CODE = ''en-us''\<rparr>"

text \<open>
  The amount table is a dict without an entry for the dollar, the display table has
  one.
\<close>

definition display_only_settings :: settings where
  "display_only_settings =
     \<lparr>DECIMAL_PLACES = 2,
      DECIMAL_PLACES_PER_CURRENCY = Some [''EUR'' \<mapsto> 3],
      DISPLAY_DECIMAL_PLACES_PER_CURRENCY = Some [''USD'' \<mapsto> 0],
      AUTO_CONVERT_MONEY = False,
      CURRENCIES = {''XYZ'', ''USD'', ''EUR'', ''JPY''},
      LANGUAGE_CODE = ''en-us''\<rparr>"

text \<open>
  The example of the specification: ten dollars, ten euros, and a stub of the conversion
  hook that answers every call with nine dollars. No deferred expression occurs, so the
  reflected operators are trivial.
\<close>

definition usd_10 :: money where
  "usd_10 = \<lparr>amount = Dec False 10 0, currency = Currency ''USD'',
             amount_decimal_places = 2, display_decimal_places = 2\<rparr>"

definition usd_9 :: money where
  "usd_9 = \<lparr>amount = Dec False 9 0, currency = Currency ''USD'',
            amount_decimal_places = 2, display_decimal_places = 2\<rparr>"


definition eur_10 :: money where
  "eur_10 = \<lparr>amount = Dec False 10 0, currency = Currency ''EUR'',
             amount_decimal_places = 2, display_decimal_places = 2\<rparr>"

definition stub_hook :: "unit hook" where
  "stub_hook v cur = Inr (OpMoney usd_9)"

definition unit_reflected :: "(unit, unit) reflected" where
  "unit_reflected = \<lparr>radd = (\<lambda>f m. ()), rsub = (\<lambda>f m. ()), rmul = (\<lambda>f m. ()), rtruediv = (\<lambda>f m. ())\<rparr>"

definition convert_settings :: settings where
  "convert_settings = yen_settings\<lparr>AUTO_CONVERT_MONEY := True\<rparr>"

section \<open>Notions for rounding\<close>

text \<open>
  A decimal that \<open>quantize\<close> can return for the exponent \<open>t\<close>: it has that exponent
  and fits the context.
\<close>

definition quantized :: "decimal \<Rightarrow> int \<Rightarrow> bool" where
  "quantized q t =
     (dexp q = t \<and> context_Etiny \<le> t \<and> t \<le> context_Emax \<and>
      ndigits (dcoeff q) \<le> context_prec \<and>
      (dcoeff q \<noteq> 0 \<longrightarrow> adjusted q \<le> context_Emax))"

text \<open>The number of digits asked of \<^verbatim>\<open>round\<close>: none when the argument is omitted.\<close>

definition round_digits :: "int option \<Rightarrow> int" where
  "round_digits n = (case n of None \<Rightarrow> 0 | Some k \<Rightarrow> k)"

text \<open>
  Rounding half to even, in the words of the specification. The decimal \<open>r\<close> is the
  decimal \<open>d\<close> rounded to \<open>n\<close> fractional digits when \<open>r\<close> is a whole number \<open>q\<close>
  of units \<open>10^-n\<close>, with the sign of \<open>d\<close> unless it is zero, no unit is nearer to
  \<open>d\<close>, and \<open>q\<close> is even when \<open>d\<close> lies halfway between two units. Distances are
  scaled by a power of ten, so that they are integers.
\<close>

definition units_at :: "decimal \<Rightarrow> int \<Rightarrow> nat" where
  "units_at r t =
     (if t \<le> dexp r then dcoeff r * 10 ^ nat (dexp r - t)
      else dcoeff r div 10 ^ nat (t - dexp r))"

definition multiple_at :: "decimal \<Rightarrow> int \<Rightarrow> bool" where
  "multiple_at r t = (t \<le> dexp r \<or> dcoeff r mod 10 ^ nat (t - dexp r) = 0)"

definition rounded_half_even_to :: "decimal \<Rightarrow> int \<Rightarrow> decimal \<Rightarrow> bool" where
  "rounded_half_even_to d n r =
     (let t = - n;
          q = units_at r t;
          unit = (10::int) ^ nat (t - dexp d);
          dist = \<bar>int q * unit - int (dcoeff d) * 10 ^ nat (dexp d - t)\<bar>
      in multiple_at r t \<and> (q = 0 \<or> dsign r = dsign d) \<and>
         2 * dist \<le> unit \<and> (2 * dist < unit \<or> even q))"

text \<open>The example of the specification, 2.345 dollars, and its rounding to two digits.\<close>

definition usd_2_345 :: money where
  "usd_2_345 = \<lparr>amount = Dec False 2345 (- 3), currency = Currency ''USD'',
                amount_decimal_places = 2, display_decimal_places = 2\<rparr>"

definition usd_2_34 :: money where
  "usd_2_34 = \<lparr>amount = Dec False 234 (- 2), currency = Currency ''USD'',
               amount_decimal_places = 2, display_decimal_places = 2\<rparr>"

text \<open>1250 yen, and its rounding to hundreds.\<close>

definition jpy_1250 :: money where
  "jpy_1250 = \<lparr>amount = Dec False 1250 0, currency = Currency ''JPY'',
               amount_decimal_places = 0, display_decimal_places = 0\<rparr>"

definition jpy_1200 :: money where
  "jpy_1200 = \<lparr>amount = Dec False 1200 0, currency = Currency ''JPY'',
               amount_decimal_places = 0, display_decimal_places = 0\<rparr>"

section \<open>Objects\<close>

text \<open>
  Python passes Money values by reference, so whether an operation changes its receiver
  is a question about the store of objects. A store maps the references in use to the
  attributes of their objects; \<open>next_ref\<close> is the next free reference. Creating an
  instance, \<^verbatim>\<open>Money(...)\<close> or \<^verbatim>\<open>self.__class__(...)\<close>, takes a fresh reference,
  and the assignments of \<^verbatim>\<open>__init__\<close> to \<^verbatim>\<open>self.currency\<close>,
  \<^verbatim>\<open>self.amount_decimal_places\<close>, \<^verbatim>\<open>self.display_decimal_places\<close> and
  \<^verbatim>\<open>self.amount\<close> fill the object at that reference. No other method of the class
  assigns an attribute. A reference to no object cannot arise in Python; it gives
  \<open>ReferenceError\<close> here.
\<close>

record store =
  objects :: "nat \<rightharpoonup> money"
  next_ref :: nat

definition store_ok :: "store \<Rightarrow> bool" where
  "store_ok h = (\<forall>r. r \<in> dom (objects h) \<longrightarrow> r < next_ref h)"

definition allocate :: "store \<Rightarrow> money \<Rightarrow> nat \<times> store" where
  "allocate h m = (next_ref h, h\<lparr>objects := (objects h)(next_ref h \<mapsto> m), next_ref := Suc (next_ref h)\<rparr>)"

text \<open>\<^verbatim>\<open>round(a, n)\<close> for the object at the reference \<open>self\<close>.\<close>

definition round_in_store :: "settings \<Rightarrow> store \<Rightarrow> nat \<Rightarrow> int option \<Rightarrow> (error + nat) \<times> store" where
  "round_in_store cfg h self n =
     (case objects h self of
        None \<Rightarrow> (Inl ReferenceError, h)
      | Some m \<Rightarrow>
          (case Money_round cfg m n of
             Inl e \<Rightarrow> (Inl e, h)
           | Inr r \<Rightarrow> (let (b, h') = allocate h r in (Inr b, h'))))"

text \<open>
  The four operators for the object at \<open>self\<close>. A Money operand is given by its
  reference. The result is a reference to a Money, the receiver's own when the operator
  returns \<^verbatim>\<open>self\<close>, or a deferred expression.
\<close>

datatype operator = Add | Sub | Mul | TrueDiv

datatype 'f operand_ref = RefF 'f | RefMoney nat | RefDecimal decimal | RefInt int

datatype 'e result_ref = MoneyAt nat | Expr 'e

definition Money_operator ::
  "operator \<Rightarrow> settings \<Rightarrow> ('f, 'e) reflected \<Rightarrow> 'f hook \<Rightarrow> money \<Rightarrow> 'f operand \<Rightarrow>
     (error + 'e outcome) \<times> 'f calls" where
  "Money_operator operation =
     (case operation of
        Add \<Rightarrow> Money_add
      | Sub \<Rightarrow> Money_sub
      | Mul \<Rightarrow> Money_mul
      | TrueDiv \<Rightarrow> Money_truediv)"

definition deref :: "store \<Rightarrow> 'f operand_ref \<Rightarrow> error + 'f operand" where
  "deref h other =
     (case other of
        RefF f \<Rightarrow> Inr (OpF f)
      | RefDecimal d \<Rightarrow> Inr (OpDecimal d)
      | RefInt i \<Rightarrow> Inr (OpInt i)
      | RefMoney r \<Rightarrow> (case objects h r of None \<Rightarrow> Inl ReferenceError | Some m \<Rightarrow> Inr (OpMoney m)))"

definition operator_in_store ::
  "operator \<Rightarrow> settings \<Rightarrow> ('f, 'e) reflected \<Rightarrow> 'f hook \<Rightarrow> store \<Rightarrow> nat \<Rightarrow> 'f operand_ref \<Rightarrow>
     (error + 'e result_ref) \<times> store" where
  "operator_in_store operation cfg fops convert_money h self other =
     (case objects h self of
        None \<Rightarrow> (Inl ReferenceError, h)
      | Some m \<Rightarrow>
          (case deref h other of
             Inl e \<Rightarrow> (Inl e, h)
           | Inr v \<Rightarrow>
               (case fst (Money_operator operation cfg fops convert_money m v) of
                  Inl e \<Rightarrow> (Inl e, h)
                | Inr ResSelf \<Rightarrow> (Inr (MoneyAt self), h)
                | Inr (ResExpr x) \<Rightarrow> (Inr (Expr x), h)
                | Inr (ResMoney r) \<Rightarrow> (let (b, h') = allocate h r in (Inr (MoneyAt b), h')))))"

text \<open>A store with 2.345 dollars at reference 0 and ten euros at reference 1.\<close>

definition example_store :: store where
  "example_store = \<lparr>objects = [0 \<mapsto> usd_2_345, 1 \<mapsto> eur_10], next_ref = 2\<rparr>"

section \<open>Properties\<close>

subsection \<open>Evaluation\<close>

lemmas parse_defs =
  Decimal_of_str_def strip_def is_space_def parse_sign_def is_digit_def parse_exponent_def
  int_of_digits_def digit_val_def special_text_def lower_def lower_char_def signed_def
  MAX_EMAX_def MIN_ETINY_def ndigits.simps

lemmas context_defs =
  context_prec_def context_Emax_def context_Emin_def context_Etiny_def context_Etop_def

lemmas init_defs =
  Money_init_def Money_init_Decimal_def resolve_currency_def normalize_amount_def
  get_currency_def places_override_def lookup_places_def upper_def upper_char_def
  Decimal_of_int_def math_trunc_def signed_def trunc_error_def

lemma default_amount_value: "default_amount = Inr (Finite (Dec False 0 (- 1)))"
  by (simp add: default_amount_def parse_defs)

subsection \<open>Truncation\<close>

lemma div_pow_bounds:
  fixes c k :: nat
  shows "int (c div 10 ^ k) * 10 ^ k \<le> int c"
    and "int c < (int (c div 10 ^ k) + 1) * 10 ^ k"
proof -
  have p: "(0::nat) < 10 ^ k" by simp
  have a1: "c div 10 ^ k * 10 ^ k \<le> c" by simp
  have a2: "c < (c div 10 ^ k + 1) * 10 ^ k"
    using dividend_less_div_times[OF p, of c] by (simp add: algebra_simps)
  from a1 have "int (c div 10 ^ k * 10 ^ k) \<le> int c" by (simp only: of_nat_le_iff)
  then show "int (c div 10 ^ k) * 10 ^ k \<le> int c" by simp
  from a2 have "int c < int ((c div 10 ^ k + 1) * 10 ^ k)" by (simp only: of_nat_less_iff)
  then show "int c < (int (c div 10 ^ k) + 1) * 10 ^ k" by (simp add: algebra_simps)
qed

lemma math_trunc_truncates: "truncation_toward_zero d (math_trunc d)"
proof (cases "0 \<le> dexp d")
  case True
  then show ?thesis
    by (simp add: truncation_toward_zero_def math_trunc_def signed_def)
next
  case False
  then have e: "nat (dexp d) = 0" by simp
  show ?thesis
    using False div_pow_bounds[of "dcoeff d" "nat (- dexp d)"]
    by (simp add: truncation_toward_zero_def math_trunc_def signed_def e)
qed

lemma truncation_unique:
  assumes "truncation_toward_zero d z"
  shows "z = math_trunc d"
proof (cases "0 \<le> dexp d")
  case True
  then have "nat (- dexp d) = 0" by simp
  with assms True show ?thesis
    by (auto simp: truncation_toward_zero_def math_trunc_def signed_def split: if_splits)
next
  case False
  define k where "k = nat (- dexp d)"
  define c where "c = dcoeff d"
  from False have e: "nat (dexp d) = 0" by simp
  from assms have lo: "\<bar>z\<bar> * 10 ^ k \<le> int c" and hi: "int c < (\<bar>z\<bar> + 1) * 10 ^ k"
    by (simp_all add: truncation_toward_zero_def e k_def c_def)
  define a where "a = nat \<bar>z\<bar>"
  have za: "\<bar>z\<bar> = int a" by (simp add: a_def)
  from lo have "int (10 ^ k * a) \<le> int c" by (simp add: za mult.commute)
  then have lo': "10 ^ k * a \<le> c" by (simp only: of_nat_le_iff)
  from hi have "int c < int (10 ^ k * Suc a)" by (simp add: za algebra_simps)
  then have hi': "c < 10 ^ k * Suc a" by (simp only: of_nat_less_iff)
  have "c div 10 ^ k = a" using lo' hi' by (rule div_nat_eqI)
  then have az: "\<bar>z\<bar> = int (c div 10 ^ k)" by (simp add: za)
  from assms have sg: "if dsign d then z \<le> 0 else 0 \<le> z" by (simp add: truncation_toward_zero_def)
  show ?thesis
    using False az sg unfolding math_trunc_def signed_def k_def[symmetric] c_def[symmetric]
    by (auto split: if_splits)
qed

subsection \<open>The constructor\<close>

lemma Money_init_Decimal_Inr:
  assumes "Money_init_Decimal cfg d c = Inr m"
  obtains cur where
    "resolve_currency cfg c = Inr cur"
    "currency m = cur"
    "amount_decimal_places m = fst (places_override cfg (code cur) (DECIMAL_PLACES cfg, DECIMAL_PLACES cfg))"
    "display_decimal_places m = snd (places_override cfg (code cur) (DECIMAL_PLACES cfg, DECIMAL_PLACES cfg))"
    "amount m = (if amount_decimal_places m = 0 then Decimal_of_int (math_trunc d) else d)"
  using assms unfolding Money_init_Decimal_def
  by (auto split: sum.splits prod.splits simp: Let_def)

lemma Money_init_Decimal_returns:
  "resolve_currency cfg c = Inr cur \<Longrightarrow> \<exists>m. Money_init_Decimal cfg d c = Inr m"
  by (simp add: Money_init_Decimal_def Let_def split: prod.splits)

lemma Money_init_Built:
  "Money_init cfg a c = Inr (Built m) \<longleftrightarrow>
     (\<exists>d. normalize_amount a = Inr (Finite d) \<and> Money_init_Decimal cfg d c = Inr m)"
  by (auto simp: Money_init_def Let_def split: sum.splits pydecimal.splits prod.splits if_splits)

lemma Money_init_BuiltNonFinite:
  "Money_init cfg a c = Inr (BuiltNonFinite k cur adp ddp) \<longleftrightarrow>
     normalize_amount a = Inr (NonFinite k) \<and> resolve_currency cfg c = Inr cur \<and>
     (adp, ddp) = places_override cfg (code cur) (DECIMAL_PLACES cfg, DECIMAL_PLACES cfg) \<and> adp \<noteq> 0"
  by (auto simp: Money_init_def Let_def split: sum.splits pydecimal.splits prod.splits if_splits)

lemma Money_init_NonFinite:
  assumes "normalize_amount a = Inr (NonFinite k)" "resolve_currency cfg c = Inr cur"
  shows "Money_init cfg a c =
           (let (adp, ddp) = places_override cfg (code cur) (DECIMAL_PLACES cfg, DECIMAL_PLACES cfg)
            in if adp = 0 then Inl (trunc_error k) else Inr (BuiltNonFinite k cur adp ddp))"
  using assms by (simp add: Money_init_def)

lemma Money_init_raises:
  "normalize_amount a = Inl e \<Longrightarrow> Money_init cfg a c = Inl e"
  by (simp add: Money_init_def)

text \<open>The methods pass a Decimal or an int: the constructor then does what its core does.\<close>

lemma Money_init_AmountDecimal:
  "Money_init cfg (AmountDecimal (Finite d)) c = map_sum id Built (Money_init_Decimal cfg d c)"
  by (simp add: Money_init_def normalize_amount_def split: sum.splits)

lemma Money_init_Decimal_amount:
  assumes "Money_init_Decimal cfg d c = Inr m"
  shows "if amount_decimal_places m = 0
         then amount m = Decimal_of_int (math_trunc d) \<and>
              truncation_toward_zero d (math_trunc d) \<and>
              (\<forall>z. truncation_toward_zero d z \<longrightarrow> z = math_trunc d)
         else amount m = d"
proof -
  from assms have am: "amount m = (if amount_decimal_places m = 0 then Decimal_of_int (math_trunc d) else d)"
    by (rule Money_init_Decimal_Inr)
  have u: "\<forall>z. truncation_toward_zero d z \<longrightarrow> z = math_trunc d"
    using truncation_unique by blast
  show ?thesis
  proof (cases "amount_decimal_places m = 0")
    case True
    with am have "amount m = Decimal_of_int (math_trunc d)" by simp
    with u math_trunc_truncates[of d]
    have "amount m = Decimal_of_int (math_trunc d) \<and>
          truncation_toward_zero d (math_trunc d) \<and>
          (\<forall>z. truncation_toward_zero d z \<longrightarrow> z = math_trunc d)"
      by (intro conjI)
    then show ?thesis unfolding if_P[OF True] .
  next
    case False
    with am have "amount m = d" by simp
    then show ?thesis unfolding if_not_P[OF False] .
  qed
qed

lemma Money_init_amount:
  assumes "Money_init cfg a c = Inr (Built m)"
  shows "\<exists>d. normalize_amount a = Inr (Finite d) \<and>
           resolve_currency cfg c = Inr (currency m) \<and>
           amount_decimal_places m =
             fst (places_override cfg (code (currency m)) (DECIMAL_PLACES cfg, DECIMAL_PLACES cfg)) \<and>
           (if amount_decimal_places m = 0
            then amount m = Decimal_of_int (math_trunc d) \<and>
                 truncation_toward_zero d (math_trunc d) \<and>
                 (\<forall>z. truncation_toward_zero d z \<longrightarrow> z = math_trunc d)
            else amount m = d)"
proof -
  from assms obtain d where d: "normalize_amount a = Inr (Finite d)"
    and m: "Money_init_Decimal cfg d c = Inr m"
    unfolding Money_init_Built by blast
  from m have r: "resolve_currency cfg c = Inr (currency m)"
    and p: "amount_decimal_places m =
             fst (places_override cfg (code (currency m)) (DECIMAL_PLACES cfg, DECIMAL_PLACES cfg))"
    by (auto elim: Money_init_Decimal_Inr)
  from d r p Money_init_Decimal_amount[OF m] show ?thesis by (intro exI[of _ d] conjI)
qed

lemma resolve_currency_returns:
  "(\<exists>cur. resolve_currency cfg c = Inr cur) \<longleftrightarrow>
     (case c of CurrencyObj cur \<Rightarrow> True | CurrencyCode s \<Rightarrow> upper s \<in> CURRENCIES cfg)"
  by (auto simp: resolve_currency_def get_currency_def split: currency_arg.splits)

lemma Money_init_returns:
  "(\<exists>m. Money_init cfg a c = Inr (Built m)) \<longleftrightarrow>
     (\<exists>d. normalize_amount a = Inr (Finite d)) \<and>
     (case c of CurrencyObj cur \<Rightarrow> True | CurrencyCode s \<Rightarrow> upper s \<in> CURRENCIES cfg)"
proof
  assume "\<exists>m. Money_init cfg a c = Inr (Built m)"
  then obtain m d where d: "normalize_amount a = Inr (Finite d)"
    and m: "Money_init_Decimal cfg d c = Inr m"
    unfolding Money_init_Built by blast
  from m have "\<exists>cur. resolve_currency cfg c = Inr cur"
    by (auto elim: Money_init_Decimal_Inr)
  with d show "(\<exists>d. normalize_amount a = Inr (Finite d)) \<and>
     (case c of CurrencyObj cur \<Rightarrow> True | CurrencyCode s \<Rightarrow> upper s \<in> CURRENCIES cfg)"
    unfolding resolve_currency_returns by blast
next
  assume "(\<exists>d. normalize_amount a = Inr (Finite d)) \<and>
     (case c of CurrencyObj cur \<Rightarrow> True | CurrencyCode s \<Rightarrow> upper s \<in> CURRENCIES cfg)"
  then obtain d cur where d: "normalize_amount a = Inr (Finite d)"
    and c: "resolve_currency cfg c = Inr cur"
    unfolding resolve_currency_returns[symmetric] by blast
  from Money_init_Decimal_returns[OF c, of d] d
  show "\<exists>m. Money_init cfg a c = Inr (Built m)"
    unfolding Money_init_Built by blast
qed

lemma Money_init_unknown_currency:
  assumes "normalize_amount a = Inr p" "resolve_currency cfg c = Inl e"
  shows "Money_init cfg a c = Inl e"
  using assms by (cases p) (simp_all add: Money_init_def Money_init_Decimal_def)

text \<open>
  C3. Whenever the constructor builds a Money, the amount argument was normalized to a
  finite Decimal, the input, and \<open>amount_decimal_places\<close> is what the settings resolve
  for the currency. When it is 0, the amount stored is the input truncated toward zero to
  an integer, and no other integer is a truncation of the input; when it is not 0, the
  stored amount is the input as it was normalized, digit for digit. The constructor
  builds a Money exactly when the amount normalizes to a finite Decimal and the currency
  is a \<^verbatim>\<open>Currency\<close> or a known code. An amount that is a NaN or an infinity, or a text
  that spells one, is normalized to that special value: with \<open>amount_decimal_places\<close>
  not 0 the instance built holds the special value as it is, and with 0 the truncation
  raises ValueError for a NaN and OverflowError for an infinity. An amount that cannot be
  normalized raises what the normalization raises, and an unknown code raises what the
  registry raises.
\<close>

theorem Money_init_truncates_only_for_zero_places:
  "(\<forall>m. Money_init cfg a c = Inr (Built m) \<longrightarrow>
      (\<exists>d. normalize_amount a = Inr (Finite d) \<and>
           resolve_currency cfg c = Inr (currency m) \<and>
           amount_decimal_places m =
             fst (places_override cfg (code (currency m)) (DECIMAL_PLACES cfg, DECIMAL_PLACES cfg)) \<and>
           (if amount_decimal_places m = 0
            then amount m = Decimal_of_int (math_trunc d) \<and>
                 truncation_toward_zero d (math_trunc d) \<and>
                 (\<forall>z. truncation_toward_zero d z \<longrightarrow> z = math_trunc d)
            else amount m = d))) \<and>
   ((\<exists>m. Money_init cfg a c = Inr (Built m)) \<longleftrightarrow>
      (\<exists>d. normalize_amount a = Inr (Finite d)) \<and>
      (case c of CurrencyObj cur \<Rightarrow> True | CurrencyCode s \<Rightarrow> upper s \<in> CURRENCIES cfg)) \<and>
   (\<forall>k cur adp ddp. Money_init cfg a c = Inr (BuiltNonFinite k cur adp ddp) \<longrightarrow>
      normalize_amount a = Inr (NonFinite k) \<and> adp \<noteq> 0) \<and>
   (\<forall>k cur. normalize_amount a = Inr (NonFinite k) \<and> resolve_currency cfg c = Inr cur \<longrightarrow>
      Money_init cfg a c =
        (let (adp, ddp) = places_override cfg (code cur) (DECIMAL_PLACES cfg, DECIMAL_PLACES cfg)
         in if adp = 0 then Inl (trunc_error k) else Inr (BuiltNonFinite k cur adp ddp))) \<and>
   (\<forall>e. normalize_amount a = Inl e \<longrightarrow> Money_init cfg a c = Inl e) \<and>
   (\<forall>p e. normalize_amount a = Inr p \<and> resolve_currency cfg c = Inl e \<longrightarrow>
      Money_init cfg a c = Inl e)"
proof (intro conjI allI impI)
  fix m assume "Money_init cfg a c = Inr (Built m)"
  then show "\<exists>d. normalize_amount a = Inr (Finite d) \<and>
           resolve_currency cfg c = Inr (currency m) \<and>
           amount_decimal_places m =
             fst (places_override cfg (code (currency m)) (DECIMAL_PLACES cfg, DECIMAL_PLACES cfg)) \<and>
           (if amount_decimal_places m = 0
            then amount m = Decimal_of_int (math_trunc d) \<and>
                 truncation_toward_zero d (math_trunc d) \<and>
                 (\<forall>z. truncation_toward_zero d z \<longrightarrow> z = math_trunc d)
            else amount m = d)"
    by (rule Money_init_amount)
next
  show "(\<exists>m. Money_init cfg a c = Inr (Built m)) \<longleftrightarrow>
      (\<exists>d. normalize_amount a = Inr (Finite d)) \<and>
      (case c of CurrencyObj cur \<Rightarrow> True | CurrencyCode s \<Rightarrow> upper s \<in> CURRENCIES cfg)"
    by (rule Money_init_returns)
next
  fix k cur adp ddp assume b: "Money_init cfg a c = Inr (BuiltNonFinite k cur adp ddp)"
  then show "normalize_amount a = Inr (NonFinite k)" unfolding Money_init_BuiltNonFinite by blast
  from b show "adp \<noteq> 0" unfolding Money_init_BuiltNonFinite by blast
next
  fix k cur assume "normalize_amount a = Inr (NonFinite k) \<and> resolve_currency cfg c = Inr cur"
  then show "Money_init cfg a c =
        (let (adp, ddp) = places_override cfg (code cur) (DECIMAL_PLACES cfg, DECIMAL_PLACES cfg)
         in if adp = 0 then Inl (trunc_error k) else Inr (BuiltNonFinite k cur adp ddp))"
    using Money_init_NonFinite by blast
next
  fix e assume "normalize_amount a = Inl e"
  then show "Money_init cfg a c = Inl e" by (rule Money_init_raises)
next
  fix p e assume "normalize_amount a = Inr p \<and> resolve_currency cfg c = Inl e"
  then show "Money_init cfg a c = Inl e" using Money_init_unknown_currency by blast
qed

theorem Money_init_truncates_only_for_zero_places_witness:
  "Money_init yen_settings (AmountDecimal (Finite (Dec False 1999 (- 2)))) (CurrencyCode ''JPY'') =
     Inr (Built \<lparr>amount = Dec False 19 0, currency = Currency ''JPY'',
                 amount_decimal_places = 0, display_decimal_places = 0\<rparr>) \<and>
   Money_init yen_settings (AmountDecimal (Finite (Dec True 1999 (- 2)))) (CurrencyCode ''jpy'') =
     Inr (Built \<lparr>amount = Dec True 19 0, currency = Currency ''JPY'',
                 amount_decimal_places = 0, display_decimal_places = 0\<rparr>) \<and>
   Money_init yen_settings (AmountText (CHR 0x1C # ''19.99'')) (CurrencyCode ''USD'') =
     Inr (Built \<lparr>amount = Dec False 1999 (- 2), currency = Currency ''USD'',
                 amount_decimal_places = 2, display_decimal_places = 2\<rparr>) \<and>
   Money_init yen_settings (AmountText ''NaN'') (CurrencyCode ''USD'') =
     Inr (BuiltNonFinite (NaN False False 0) (Currency ''USD'') 2 2) \<and>
   Money_init yen_settings (AmountText ''NaN'') (CurrencyCode ''JPY'') = Inl ValueError \<and>
   Money_init yen_settings (AmountText ''-inf'') (CurrencyCode ''JPY'') = Inl OverflowError \<and>
   Money_init yen_settings (AmountDecimal (NonFinite (Infinity False))) (CurrencyCode ''USD'') =
     Inr (BuiltNonFinite (Infinity False) (Currency ''USD'') 2 2) \<and>
   Money_init yen_settings (AmountText ''abc'') (CurrencyCode ''JPY'') = Inl InvalidOperation \<and>
   Money_init yen_settings (AmountText ''inf'') (CurrencyCode ''ABC'') = Inl CurrencyDoesNotExist \<and>
   truncation_toward_zero (Dec False 1999 (- 2)) 19 \<and>
   \<not> truncation_toward_zero (Dec False 1999 (- 2)) 20"
proof -
  have a: "Money_init yen_settings (AmountDecimal (Finite (Dec False 1999 (- 2)))) (CurrencyCode ''JPY'') =
     Inr (Built \<lparr>amount = Dec False 19 0, currency = Currency ''JPY'',
                 amount_decimal_places = 0, display_decimal_places = 0\<rparr>)"
    by (simp add: init_defs yen_settings_def)
  have b: "Money_init yen_settings (AmountDecimal (Finite (Dec True 1999 (- 2)))) (CurrencyCode ''jpy'') =
     Inr (Built \<lparr>amount = Dec True 19 0, currency = Currency ''JPY'',
                 amount_decimal_places = 0, display_decimal_places = 0\<rparr>)"
    by (simp add: init_defs yen_settings_def)
  have c: "Money_init yen_settings (AmountText (CHR 0x1C # ''19.99'')) (CurrencyCode ''USD'') =
     Inr (Built \<lparr>amount = Dec False 1999 (- 2), currency = Currency ''USD'',
                 amount_decimal_places = 2, display_decimal_places = 2\<rparr>)"
    by (simp add: init_defs yen_settings_def str_amount_def parse_defs)
  have nan: "normalize_amount (AmountText ''NaN'') = Inr (NonFinite (NaN False False 0))"
    by (simp add: normalize_amount_def str_amount_def parse_defs)
  have inf: "normalize_amount (AmountText ''-inf'') = Inr (NonFinite (Infinity True))"
    by (simp add: normalize_amount_def str_amount_def parse_defs)
  have abc: "normalize_amount (AmountText ''abc'') = Inl InvalidOperation"
    by (simp add: normalize_amount_def str_amount_def parse_defs)
  have usd: "resolve_currency yen_settings (CurrencyCode ''USD'') = Inr (Currency ''USD'')"
    and jpy: "resolve_currency yen_settings (CurrencyCode ''JPY'') = Inr (Currency ''JPY'')"
    by (simp_all add: resolve_currency_def get_currency_def upper_def upper_char_def yen_settings_def)
  have pu: "places_override yen_settings ''USD'' (2, 2) = (2, 2)"
    and pj: "places_override yen_settings ''JPY'' (2, 2) = (0, 0)"
    by (simp_all add: places_override_def lookup_places_def yen_settings_def)
  have dp: "DECIMAL_PLACES yen_settings = 2" by (simp add: yen_settings_def)
  note special = Money_init_truncates_only_for_zero_places[THEN conjunct2, THEN conjunct2,
      THEN conjunct2, THEN conjunct1, rule_format, OF conjI]
  note raises = Money_init_truncates_only_for_zero_places[THEN conjunct2, THEN conjunct2,
      THEN conjunct2, THEN conjunct2, THEN conjunct1, rule_format]
  note unknown = Money_init_truncates_only_for_zero_places[THEN conjunct2, THEN conjunct2,
      THEN conjunct2, THEN conjunct2, THEN conjunct2, rule_format, OF conjI]
  note built = Money_init_truncates_only_for_zero_places[THEN conjunct1, rule_format]
  have d: "Money_init yen_settings (AmountText ''NaN'') (CurrencyCode ''USD'') =
     Inr (BuiltNonFinite (NaN False False 0) (Currency ''USD'') 2 2)"
    using special[OF nan usd] by (simp add: pu dp)
  have e: "Money_init yen_settings (AmountText ''NaN'') (CurrencyCode ''JPY'') = Inl ValueError"
    using special[OF nan jpy] by (simp add: pj dp trunc_error_def)
  have f: "Money_init yen_settings (AmountText ''-inf'') (CurrencyCode ''JPY'') = Inl OverflowError"
    using special[OF inf jpy] by (simp add: pj dp trunc_error_def)
  have g: "Money_init yen_settings (AmountText ''abc'') (CurrencyCode ''JPY'') = Inl InvalidOperation"
    using abc by (rule raises)
  have pinf: "normalize_amount (AmountText ''inf'') = Inr (NonFinite (Infinity False))"
    by (simp add: normalize_amount_def str_amount_def parse_defs)
  have abc_cur: "resolve_currency yen_settings (CurrencyCode ''ABC'') = Inl CurrencyDoesNotExist"
    by (simp add: resolve_currency_def get_currency_def upper_def upper_char_def yen_settings_def)
  have j: "Money_init yen_settings (AmountText ''inf'') (CurrencyCode ''ABC'') = Inl CurrencyDoesNotExist"
    using pinf abc_cur by (rule unknown)
  have di: "normalize_amount (AmountDecimal (NonFinite (Infinity False))) = Inr (NonFinite (Infinity False))"
    by (simp add: normalize_amount_def)
  have i: "Money_init yen_settings (AmountDecimal (NonFinite (Infinity False))) (CurrencyCode ''USD'') =
     Inr (BuiltNonFinite (Infinity False) (Currency ''USD'') 2 2)"
    using special[OF di usd] by (simp add: pu dp)
  have t: "math_trunc (Dec False 1999 (- 2)) = 19"
    by (simp add: math_trunc_def signed_def)
  from built[OF a]
  have h: "truncation_toward_zero (Dec False 1999 (- 2)) 19 \<and>
        (\<forall>z. truncation_toward_zero (Dec False 1999 (- 2)) z \<longrightarrow> z = 19)"
    by (simp add: normalize_amount_def t)
  then have "\<not> truncation_toward_zero (Dec False 1999 (- 2)) 20" by fastforce
  with h show ?thesis using a b c d e f g i j by simp
qed

text \<open>
  C10. \<^verbatim>\<open>Money()\<close>, where the registry knows the default code: the amount equals
  \<^verbatim>\<open>Decimal('0.0')\<close>, which is the default of the parameter, and the code of the
  currency is \<^verbatim>\<open>XYZ\<close>.
\<close>

theorem Money_default_amount_and_currency:
  assumes "DEFAULT_CURRENCY_CODE \<in> CURRENCIES cfg"
  shows "\<exists>m. Money_default cfg = Inr (Built m) \<and>
           default_amount = Inr (Finite (Dec False 0 (- 1))) \<and>
           dec_eq (amount m) (Dec False 0 (- 1)) \<and>
           code (currency m) = ''XYZ''"
proof -
  have u: "upper DEFAULT_CURRENCY_CODE = ''XYZ''"
    by (simp add: DEFAULT_CURRENCY_CODE_def upper_def upper_char_def)
  from assms have k: "''XYZ'' \<in> CURRENCIES cfg"
    by (simp add: DEFAULT_CURRENCY_CODE_def)
  have z: "dec_eq (Decimal_of_int (math_trunc (Dec False 0 (- 1)))) (Dec False 0 (- 1))"
    by (simp add: dec_eq_def Decimal_of_int_def math_trunc_def signed_def)
  have r: "dec_eq (Dec False 0 (- 1)) (Dec False 0 (- 1))"
    by (simp add: dec_eq_def)
  show ?thesis
    using k z r
    by (simp add: Money_default_def default_amount_value Money_init_def Money_init_Decimal_def
        resolve_currency_def normalize_amount_def
        u get_currency_def Let_def split: prod.splits)
qed

theorem Money_default_amount_and_currency_witness:
  "DEFAULT_CURRENCY_CODE \<in> CURRENCIES yen_settings \<and>
   Money_default yen_settings =
     Inr (Built \<lparr>amount = Dec False 0 (- 1), currency = Currency ''XYZ'',
                 amount_decimal_places = 2, display_decimal_places = 2\<rparr>)"
proof -
  have h: "DEFAULT_CURRENCY_CODE \<in> CURRENCIES yen_settings"
    by (simp add: DEFAULT_CURRENCY_CODE_def yen_settings_def)
  have v: "Money_default yen_settings =
     Inr (Built \<lparr>amount = Dec False 0 (- 1), currency = Currency ''XYZ'',
                 amount_decimal_places = 2, display_decimal_places = 2\<rparr>)"
    by (simp add: Money_default_def default_amount_value DEFAULT_CURRENCY_CODE_def init_defs
        yen_settings_def)
  from Money_default_amount_and_currency[OF h] show ?thesis using h v by simp
qed

text \<open>
  C5, evaluated where it fails. The display table maps the dollar to 0 places, and the
  amount table is a dict without the dollar: the KeyError of the first lookup leaves the
  \<^verbatim>\<open>try\<close> block before the second lookup, and \<open>display_decimal_places\<close> keeps the class
  default 2. With the dollar entered in the amount table, or with no amount table at all,
  the same display table gives 0.
\<close>

theorem display_places_skipped_after_amount_miss:
  "Money_init display_only_settings (AmountDecimal (Finite (Dec False 15 (- 1)))) (CurrencyCode ''USD'') =
     Inr (Built \<lparr>amount = Dec False 15 (- 1), currency = Currency ''USD'',
                 amount_decimal_places = 2, display_decimal_places = 2\<rparr>) \<and>
   Money_init (display_only_settings\<lparr>DECIMAL_PLACES_PER_CURRENCY := Some [''USD'' \<mapsto> 2]\<rparr>)
       (AmountDecimal (Finite (Dec False 15 (- 1)))) (CurrencyCode ''USD'') =
     Inr (Built \<lparr>amount = Dec False 15 (- 1), currency = Currency ''USD'',
                 amount_decimal_places = 2, display_decimal_places = 0\<rparr>) \<and>
   Money_init (display_only_settings\<lparr>DECIMAL_PLACES_PER_CURRENCY := None\<rparr>)
       (AmountDecimal (Finite (Dec False 15 (- 1)))) (CurrencyCode ''USD'') =
     Inr (Built \<lparr>amount = Dec False 15 (- 1), currency = Currency ''USD'',
                 amount_decimal_places = 2, display_decimal_places = 0\<rparr>)"
  by (simp add: init_defs display_only_settings_def)

subsection \<open>Locale resolution\<close>

lemma upper_append: "upper (xs @ ys) = upper xs @ upper ys"
  by (simp add: upper_def)

lemma upper_char_underscore: "upper_char (CHR ''_'') = CHR ''_''"
  by (simp add: upper_char_def)

text \<open>
  C6. The resolved locale is a function of the requested language (the active language,
  or \<open>LANGUAGE_CODE\<close> when there is none), of \<^verbatim>\<open>to_locale\<close> and of the table of
  known definitions. With \<open>tag\<close> the canonical tag of the language: if the upper-cased
  tag is in the table, the tag is returned; otherwise, if the upper-cased tag doubled
  around an underscore is in the table, that is returned; otherwise the empty string.
\<close>

theorem get_current_locale_resolution:
  "(let language = (case get_language of
                     None \<Rightarrow> LANGUAGE_CODE cfg
                   | Some l \<Rightarrow> if l = [] then LANGUAGE_CODE cfg else l);
        tag = to_loc language
    in get_current_locale cfg to_loc get_language defs =
         (if upper tag \<in> defs then tag
          else if upper tag @ ''_'' @ upper tag \<in> defs then upper tag @ ''_'' @ upper tag
          else []))"
  by (simp add: get_current_locale_def Let_def upper_def upper_char_underscore)

theorem get_current_locale_resolution_witness:
  "get_current_locale yen_settings to_locale (Some ''fr'') {''EN_US'', ''FR_FR''} = ''FR_FR'' \<and>
   get_current_locale yen_settings to_locale (Some ''de'') {''EN_US'', ''FR_FR''} = [] \<and>
   get_current_locale yen_settings to_locale None {''EN_US'', ''FR_FR''} = ''en_US''"
proof -
  have fr: "to_locale ''fr'' = ''fr''" and de: "to_locale ''de'' = ''de''"
    and en: "to_locale ''en-us'' = ''en_US''"
    by (simp_all add: to_locale_def lower_def lower_char_def upper_def upper_char_def)
  have up: "upper ''fr'' = ''FR''" "upper ''de'' = ''DE''" "upper ''en_US'' = ''EN_US''"
    by (simp_all add: upper_def upper_char_def)
  show ?thesis
    using get_current_locale_resolution[where get_language = "Some ''fr''" and cfg = yen_settings
        and to_loc = to_locale and defs = "{''EN_US'', ''FR_FR''}"]
      get_current_locale_resolution[where get_language = "Some ''de''" and cfg = yen_settings
        and to_loc = to_locale and defs = "{''EN_US'', ''FR_FR''}"]
      get_current_locale_resolution[where get_language = None and cfg = yen_settings
        and to_loc = to_locale and defs = "{''EN_US'', ''FR_FR''}"]
    by (simp add: Let_def fr de en up yen_settings_def)
qed

subsection \<open>Deferred expressions\<close>

text \<open>
  C9. With a deferred expression as right operand, each of the four operators returns
  what the reflected operator of the expression returns for the Money as its operand.
  The result depends neither on the settings nor on the conversion hook, the hook is not
  called, and no error arises from a currency check.
\<close>

theorem deferred_operand_delegates:
  "Money_add cfg fops convert_money self (OpF f) = (Inr (ResExpr (radd fops f self)), []) \<and>
   Money_sub cfg fops convert_money self (OpF f) = (Inr (ResExpr (rsub fops f self)), []) \<and>
   Money_mul cfg fops convert_money self (OpF f) = (Inr (ResExpr (rmul fops f self)), []) \<and>
   Money_truediv cfg fops convert_money self (OpF f) = (Inr (ResExpr (rtruediv fops f self)), [])"
  by (simp add: Money_add_def Money_sub_def Money_mul_def Money_truediv_def)

subsection \<open>The conversion hook\<close>

text \<open>
  C4, as stated, fails: with the flag enabled, adding nine dollars to ten dollars calls
  the hook, although both operands have the same currency.
\<close>

theorem hook_called_for_equal_currencies:
  "AUTO_CONVERT_MONEY convert_settings \<and>
   currency usd_10 = currency usd_9 \<and>
   snd (Money_add convert_settings unit_reflected stub_hook usd_10 (OpMoney usd_9)) =
     [(OpMoney usd_9, Currency ''USD'')]"
  by (simp add: Money_add_def maybe_convert_def convert_settings_def yen_settings_def
      usd_10_def usd_9_def stub_hook_def split: sum.splits)

text \<open>
  C4, amended. In an addition or subtraction of two Money operands the hook is called
  once, with the right operand and the currency of the receiver, when the flag is
  enabled, whether the currencies differ or not; it is not called when the flag is
  disabled.
\<close>

theorem hook_called_iff_flag_enabled:
  "snd (Money_add cfg fops convert_money a (OpMoney b)) =
     (if AUTO_CONVERT_MONEY cfg then [(OpMoney b, currency a)] else []) \<and>
   snd (Money_sub cfg fops convert_money a (OpMoney b)) =
     (if AUTO_CONVERT_MONEY cfg then [(OpMoney b, currency a)] else [])"
  by (simp add: Money_add_def Money_sub_def maybe_convert_def split: sum.splits)

theorem hook_called_iff_flag_enabled_witness:
  "snd (Money_add convert_settings unit_reflected stub_hook usd_10 (OpMoney eur_10)) =
     [(OpMoney eur_10, Currency ''USD'')] \<and>
   snd (Money_add yen_settings unit_reflected stub_hook usd_10 (OpMoney eur_10)) = [] \<and>
   snd (Money_sub yen_settings unit_reflected stub_hook usd_10 (OpMoney usd_9)) = []"
  using hook_called_iff_flag_enabled[where cfg = convert_settings and fops = unit_reflected
      and convert_money = stub_hook and a = usd_10 and b = eur_10]
    hook_called_iff_flag_enabled[where cfg = yen_settings and fops = unit_reflected
      and convert_money = stub_hook and a = usd_10 and b = eur_10]
    hook_called_iff_flag_enabled[where cfg = yen_settings and fops = unit_reflected
      and convert_money = stub_hook and a = usd_10 and b = usd_9]
  by (simp add: convert_settings_def yen_settings_def usd_10_def)

subsection \<open>Mismatched currencies\<close>



subsection \<open>An int through its string\<close>

text \<open>
  \<^verbatim>\<open>Decimal(str(i))\<close> is \<^verbatim>\<open>Decimal(i)\<close> for every int whose number of digits
  is within the exponent limit of the decimal module.
\<close>

lemma digit_char_is_digit: "d < 10 \<Longrightarrow> is_digit (digit_char d)"
proof -
  assume "d < 10"
  then have "d \<in> {0, 1, 2, 3, 4, 5, 6, 7, 8, 9}" by auto
  then show ?thesis by (auto simp: is_digit_def digit_char_def)
qed

lemma digit_val_digit_char: "d < 10 \<Longrightarrow> digit_val (digit_char d) = d"
proof -
  assume "d < 10"
  then have "d \<in> {0, 1, 2, 3, 4, 5, 6, 7, 8, 9}" by auto
  then show ?thesis by (auto simp: digit_val_def digit_char_def)
qed

lemma is_digit_plain:
  assumes "is_digit c"
  shows "\<not> is_space c" "c \<noteq> CHR ''_''" "c \<noteq> CHR ''-''" "c \<noteq> CHR ''+''"
  using assms by (auto simp: is_digit_def is_space_def)

lemma str_nat_digits: "list_all is_digit (str_nat n)"
proof (induction n rule: str_nat.induct)
  case (1 n)
  show ?case
  proof (cases "n < 10")
    case True
    then show ?thesis by (subst str_nat.simps) (simp add: digit_char_is_digit)
  next
    case False
    with 1 show ?thesis by (subst str_nat.simps) (simp add: digit_char_is_digit)
  qed
qed

lemma str_nat_nonempty: "str_nat n \<noteq> []"
  by (subst str_nat.simps) simp

lemma int_of_digits_snoc: "int_of_digits (ds @ [c]) = 10 * int_of_digits ds + digit_val c"
  by (simp add: int_of_digits_def)

lemma int_of_digits_str_nat: "int_of_digits (str_nat n) = n"
proof (induction n rule: str_nat.induct)
  case (1 n)
  show ?case
  proof (cases "n < 10")
    case True
    then show ?thesis
      by (subst str_nat.simps) (simp add: int_of_digits_def digit_val_digit_char)
  next
    case False
    with 1 have "int_of_digits (str_nat (n div 10)) = n div 10" by simp
    with False show ?thesis
      by (subst str_nat.simps) (simp add: int_of_digits_snoc digit_val_digit_char)
  qed
qed

lemma strip_plain:
  assumes "\<forall>c \<in> set s. \<not> is_space c"
  shows "strip s = s"
proof (cases s)
  case Nil
  then show ?thesis by (simp add: strip_def)
next
  case (Cons x xs)
  with assms have h: "\<not> is_space (hd s)" by simp
  from Cons assms have l: "\<not> is_space (last s)" by (metis last_in_set list.distinct(1))
  from Cons h have 1: "dropWhile is_space s = s" by simp
  from Cons l have 2: "dropWhile is_space (rev s) = rev s"
    by (metis dropWhile_eq_self_iff hd_rev)
  show ?thesis by (simp add: strip_def 1 2)
qed

lemma Decimal_of_str_digits:
  assumes "list_all is_digit ds" "ds \<noteq> []"
    and "int (ndigits (int_of_digits ds)) - 1 \<le> MAX_EMAX"
  shows "Decimal_of_str ds = Inr (Finite (Dec False (int_of_digits ds) 0))"
    and "Decimal_of_str (CHR ''-'' # ds) = Inr (Finite (Dec True (int_of_digits ds) 0))"
proof -
  from assms(1) have all: "\<forall>c \<in> set ds. is_digit c" by (simp add: list_all_iff)
  then have sp: "\<forall>c \<in> set ds. \<not> is_space c" and us: "\<forall>c \<in> set ds. c \<noteq> CHR ''_''"
    using is_digit_plain by blast+
  have f: "filter (\<lambda>c. c \<noteq> CHR ''_'') ds = ds" using us by (simp add: filter_id_conv)
  have t: "takeWhile is_digit ds = ds" using all by (simp add: takeWhile_eq_all_conv)
  have d: "dropWhile is_digit ds = []" using all by simp
  obtain x xs where xs: "ds = x # xs" using assms(2) by (cases ds) auto
  then have "is_digit x" using all by simp
  then have ps: "parse_sign ds = (False, ds)"
    using is_digit_plain[of x] by (simp add: parse_sign_def xs)
  have s1: "strip ds = ds" using sp by (rule strip_plain)
  have lim: "\<not> (MAX_EMAX < int (ndigits (int_of_digits ds)) - 1 \<or> 0 < MIN_ETINY)"
    using assms(3) by (simp add: MIN_ETINY_def)
  show "Decimal_of_str ds = Inr (Finite (Dec False (int_of_digits ds) 0))"
    using assms(2) lim by (simp add: Decimal_of_str_def s1 f ps t d parse_exponent_def)
  have "\<not> is_space (CHR ''-'')" by (simp add: is_space_def)
  then have s2: "strip (CHR ''-'' # ds) = CHR ''-'' # ds"
    using sp by (intro strip_plain) simp
  have ps2: "parse_sign (CHR ''-'' # ds) = (True, ds)" by (simp add: parse_sign_def)
  show "Decimal_of_str (CHR ''-'' # ds) = Inr (Finite (Dec True (int_of_digits ds) 0))"
    using assms(2) lim by (simp add: Decimal_of_str_def s2 f ps2 t d parse_exponent_def)
qed

lemma Decimal_of_str_str_int:
  assumes "int (ndigits (nat \<bar>i\<bar>)) - 1 \<le> MAX_EMAX"
  shows "Decimal_of_str (str_int i) = Inr (Finite (Decimal_of_int i))"
proof (cases "i < 0")
  case True
  then have n: "nat \<bar>i\<bar> = nat (- i)" by simp
  from True show ?thesis
    using Decimal_of_str_digits(2)[OF str_nat_digits str_nat_nonempty, of "nat (- i)"] assms
    by (simp add: str_int_def Decimal_of_int_def int_of_digits_str_nat n)
next
  case False
  then have n: "nat \<bar>i\<bar> = nat i" by simp
  from False show ?thesis
    using Decimal_of_str_digits(1)[OF str_nat_digits str_nat_nonempty, of "nat i"] assms
    by (simp add: str_int_def Decimal_of_int_def int_of_digits_str_nat n)
qed

lemma Money_init_AmountInt:
  assumes "int (ndigits (nat \<bar>i\<bar>)) - 1 \<le> MAX_EMAX"
  shows "Money_init cfg (AmountInt i) c = map_sum id Built (Money_init_Decimal cfg (Decimal_of_int i) c)"
  by (simp add: Money_init_def normalize_amount_def str_amount_def Decimal_of_str_str_int[OF assms]
      split: sum.splits)

subsection \<open>Digits of a coefficient\<close>

lemma ndigits_pos: "0 < ndigits c"
  by (subst ndigits.simps) simp

lemma ndigits_bound: "c < 10 ^ ndigits c"
proof (induction c rule: ndigits.induct)
  case (1 c)
  show ?case
  proof (cases "c < 10")
    case True
    then show ?thesis by (subst ndigits.simps) simp
  next
    case False
    with 1 have "c div 10 < 10 ^ ndigits (c div 10)" by simp
    then have "c < 10 * 10 ^ ndigits (c div 10)" by simp
    with False show ?thesis by (subst ndigits.simps) simp
  qed
qed

lemma ndigits_le: "0 < p \<Longrightarrow> c < 10 ^ p \<Longrightarrow> ndigits c \<le> p"
proof (induction c arbitrary: p rule: ndigits.induct)
  case (1 c)
  show ?case
  proof (cases "c < 10")
    case True
    with 1(2) show ?thesis by (subst ndigits.simps) simp
  next
    case False
    from False 1(3) have "1 < p"
      by (metis One_nat_def Suc_lessI 1(2) power_one_right)
    then obtain p' where p': "p = Suc p'" "0 < p'" by (cases p) auto
    from 1(3) p' have "c div 10 < 10 ^ p'" by simp
    with 1(1)[OF False p'(2)] have "ndigits (c div 10) \<le> p'" by simp
    with False p' show ?thesis by (subst ndigits.simps) simp
  qed
qed

lemma ndigits_le_iff: "0 < p \<Longrightarrow> ndigits c \<le> p \<longleftrightarrow> c < 10 ^ p"
proof
  assume "0 < p" "ndigits c \<le> p"
  have "c < 10 ^ ndigits c" by (rule ndigits_bound)
  also have "\<dots> \<le> 10 ^ p" using \<open>ndigits c \<le> p\<close> by (simp add: power_increasing)
  finally show "c < 10 ^ p" .
qed (rule ndigits_le)

lemma ndigits_mono: "a \<le> b \<Longrightarrow> ndigits a \<le> ndigits b"
  using ndigits_le[OF ndigits_pos, of a b] ndigits_bound[of b] by simp

lemma ndigits_mult_pow: "ndigits (c * 10 ^ j) \<le> ndigits c + j"
proof -
  have "c * 10 ^ j < 10 ^ ndigits c * 10 ^ j" using ndigits_bound[of c] by simp
  then have "c * 10 ^ j < 10 ^ (ndigits c + j)" by (simp add: power_add)
  then show ?thesis using ndigits_pos[of c] by (intro ndigits_le) simp_all
qed

lemma ndigits_lower: "0 < c \<Longrightarrow> 10 ^ (ndigits c - 1) \<le> c"
proof (induction c rule: ndigits.induct)
  case (1 c)
  show ?case
  proof (cases "c < 10")
    case True
    with 1(2) show ?thesis by (subst ndigits.simps) simp
  next
    case False
    then have "0 < c div 10" by simp
    with 1(1)[OF False] have "10 ^ (ndigits (c div 10) - 1) \<le> c div 10" by simp
    then have "10 * 10 ^ (ndigits (c div 10) - 1) \<le> c" by simp
    moreover have "ndigits c = Suc (ndigits (c div 10))" using False by (subst ndigits.simps) simp
    ultimately show ?thesis using ndigits_pos[of "c div 10"]
      by (cases "ndigits (c div 10)") simp_all
  qed
qed

subsection \<open>Quantize\<close>

lemma dec_fix_id:
  assumes "ndigits (dcoeff q) \<le> context_prec" "context_Etiny \<le> dexp q" "dexp q \<le> context_Emax"
    "dcoeff q \<noteq> 0 \<longrightarrow> adjusted q \<le> context_Emax"
  shows "dec_fix q = Inr q"
proof (cases "dcoeff q = 0")
  case True
  with assms(2,3) show ?thesis
    by (cases q) (simp add: dec_fix_def)
next
  case False
  with assms(4) have a: "adjusted q \<le> context_Emax" by simp
  then have 1: "\<not> context_Etop < int (ndigits (dcoeff q)) + dexp q - int context_prec"
    by (simp add: adjusted_def context_defs)
  have 2: "\<not> dexp q < max (int (ndigits (dcoeff q)) + dexp q - int context_prec) context_Etiny"
    using assms(1,2) by simp
  show ?thesis
    using False 1 2 by (simp add: dec_fix_def Let_def)
qed

lemma quantized_fix: "quantized q t \<Longrightarrow> dec_fix q = Inr q"
  by (rule dec_fix_id) (simp_all add: quantized_def)

lemma rescale_exp: "dexp (rescale d e) = e"
  by (simp add: rescale_def)

lemma quantize_quantized:
  assumes "quantize d t = Inr q"
  shows "quantized q t"
proof -
  from assms have r: "context_Etiny \<le> t" "t \<le> context_Emax"
    by (auto simp: quantize_def split: if_splits)
  show ?thesis
  proof (cases "dcoeff d = 0")
    case True
    with assms r have "q = Dec (dsign d) 0 t"
      by (simp add: quantize_def dec_fix_def)
    with r show ?thesis
      by (simp add: quantized_def ndigits.simps context_defs)
  next
    case False
    define ans where "ans = rescale d t"
    from assms False r have c: "\<not> context_Emax < adjusted ans" "\<not> context_prec < ndigits (dcoeff ans)"
      and f: "dec_fix ans = Inr q"
      by (auto simp: quantize_def Let_def ans_def split: if_splits)
    have e: "dexp ans = t" by (simp add: ans_def rescale_exp)
    have "dec_fix ans = Inr ans"
      using c r e by (intro dec_fix_id) simp_all
    with f have "q = ans" by simp
    with c r e show ?thesis by (simp add: quantized_def)
  qed
qed

lemma quantized_quantize:
  assumes "quantized q t"
  shows "quantize q t = Inr q"
proof (cases "dcoeff q = 0")
  case True
  from assms have e: "dexp q = t" by (simp add: quantized_def)
  with True have "Dec (dsign q) 0 t = q" by (cases q) simp
  with True assms quantized_fix[OF assms] show ?thesis
    by (simp add: quantize_def quantized_def)
next
  case False
  from assms have e: "dexp q = t" by (simp add: quantized_def)
  with False have r: "rescale q t = q" by (cases q) (simp add: rescale_def)
  from assms False have "adjusted q - t + 1 = int (ndigits (dcoeff q))"
    by (simp add: adjusted_def quantized_def)
  with assms False r quantized_fix[OF assms] show ?thesis
    by (simp add: quantize_def quantized_def Let_def)
qed

lemma quantize_idem: "quantize d t = Inr q \<Longrightarrow> quantize q t = Inr q"
  by (intro quantized_quantize quantize_quantized)

lemma round_half_even_exact: "round_half_even (c * 10 ^ k) k = c"
  by (simp add: round_half_even_def)

lemma Decimal_of_int_signed:
  "0 < c \<Longrightarrow> Decimal_of_int (signed s c) = Dec s c 0"
  "Decimal_of_int (signed s 0) = Dec False 0 0"
  by (simp_all add: Decimal_of_int_def signed_def)

lemma quantize_zero:
  assumes "context_Etiny \<le> t" "t \<le> context_Emax"
  shows "quantize (Dec s 0 t') t = Inr (Dec s 0 t)"
  using assms by (simp add: quantize_def dec_fix_def)

lemma math_trunc_zero: "math_trunc (Dec s 0 t) = 0"
  by (simp add: math_trunc_def signed_def)

lemma quantize_of_trunc:
  assumes "quantized q t"
  shows "\<exists>q'. quantize (Decimal_of_int (math_trunc q)) t = Inr q' \<and> math_trunc q' = math_trunc q"
proof -
  obtain s c where q: "q = Dec s c t" using assms by (cases q) (simp add: quantized_def)
  from assms have r: "context_Etiny \<le> t" "t \<le> context_Emax"
    and n: "ndigits c \<le> context_prec"
    and a: "c \<noteq> 0 \<longrightarrow> t + int (ndigits c) - 1 \<le> context_Emax"
    by (simp_all add: quantized_def q adjusted_def)
  show ?thesis
  proof (cases "0 \<le> t")
    case True
    define T where "T = nat t"
    have tT: "t = int T" using True by (simp add: T_def)
    have mt: "math_trunc q = signed s (c * 10 ^ T)" using True by (simp add: math_trunc_def q T_def)
    show ?thesis
    proof (cases "c = 0")
      case True
      then have "Decimal_of_int (math_trunc q) = Dec False 0 0" by (simp add: mt Decimal_of_int_signed)
      with r True show ?thesis by (simp add: quantize_zero math_trunc_zero mt signed_def)
    next
      case False
      then have Z: "Decimal_of_int (math_trunc q) = Dec s (c * 10 ^ T) 0"
        by (simp add: mt Decimal_of_int_signed)
      have nd: "ndigits (c * 10 ^ T) \<le> ndigits c + T" by (rule ndigits_mult_pow)
      from a False have a': "t + int (ndigits c) - 1 \<le> context_Emax" by simp
      have c1: "\<not> context_Emax < adjusted (Dec s (c * 10 ^ T) 0)"
        using nd a' by (simp add: adjusted_def tT)
      have c2: "\<not> int context_prec < adjusted (Dec s (c * 10 ^ T) 0) - t + 1"
        using nd n by (simp add: adjusted_def tT)
      have rs: "rescale (Dec s (c * 10 ^ T) 0) t = q"
        using False by (simp add: rescale_def q tT round_half_even_exact)
      have c3: "\<not> context_Emax < adjusted q" using a' by (simp add: adjusted_def q)
      have c4: "\<not> context_prec < ndigits (dcoeff q)" using n by (simp add: q)
      have "quantize (Dec s (c * 10 ^ T) 0) t = Inr q"
        using False r c1 c2 c3 c4 quantized_fix[OF assms] by (simp add: quantize_def rs)
      with Z show ?thesis by simp
    qed
  next
    case False
    define J where "J = nat (- t)"
    have tJ: "t = - int J" using False by (simp add: J_def)
    define w where "w = c div 10 ^ J"
    have mt: "math_trunc q = signed s w" using False by (simp add: math_trunc_def q J_def w_def)
    show ?thesis
    proof (cases "w = 0")
      case True
      then have "Decimal_of_int (math_trunc q) = Dec False 0 0" by (simp add: mt Decimal_of_int_signed)
      with r True show ?thesis by (simp add: quantize_zero math_trunc_zero mt signed_def)
    next
      case wpos: False
      then have Z: "Decimal_of_int (math_trunc q) = Dec s w 0"
        by (simp add: mt Decimal_of_int_signed)
      have wc: "w * 10 ^ J \<le> c" by (simp add: w_def)
      have cb: "c < 10 ^ context_prec" using n ndigits_le_iff[of context_prec c] by (simp add: context_prec_def)
      have Jlt: "J < context_prec"
      proof (rule ccontr)
        assume "\<not> J < context_prec"
        then have "context_prec \<le> J" by simp
        then have "(10::nat) ^ context_prec \<le> 10 ^ J" by (rule power_increasing) simp
        with cb have "c < 10 ^ J" by (rule less_le_trans)
        then have "w = 0" by (simp add: w_def)
        with wpos show False by simp
      qed
      have "(10::nat) ^ (context_prec - J) * 10 ^ J = 10 ^ context_prec"
        using Jlt by (simp add: power_add[symmetric])
      moreover from wc cb have "w * 10 ^ J < 10 ^ context_prec" by (rule le_less_trans)
      ultimately have "w * 10 ^ J < 10 ^ (context_prec - J) * 10 ^ J"
        by (simp only:)
      then have "w < 10 ^ (context_prec - J)" by simp
      then have nw: "ndigits w \<le> context_prec - J" using Jlt by (intro ndigits_le) simp_all
      have c1: "\<not> context_Emax < adjusted (Dec s w 0)"
        using nw by (simp add: adjusted_def context_defs)
      have c2: "\<not> int context_prec < adjusted (Dec s w 0) - t + 1"
        using nw Jlt by (simp add: adjusted_def tJ)
      define q' where "q' = Dec s (w * 10 ^ J) t"
      have rs: "rescale (Dec s w 0) t = q'"
        using wpos False by (simp add: rescale_def q'_def J_def)
      have nq: "ndigits (w * 10 ^ J) \<le> context_prec"
        using ndigits_mono[OF wc] n by simp
      have "ndigits (w * 10 ^ J) \<le> ndigits w + J" by (rule ndigits_mult_pow)
      then have aq: "adjusted q' \<le> context_Emax"
        using nw by (simp add: adjusted_def q'_def tJ context_defs)
      have fx: "dec_fix q' = Inr q'"
        using nq aq r by (intro dec_fix_id) (simp_all add: q'_def)
      have "quantize (Dec s w 0) t = Inr q'"
        using wpos r c1 c2 aq nq fx by (simp add: quantize_def rs) (simp add: q'_def)
      moreover have "math_trunc q' = signed s w"
        using False by (simp add: math_trunc_def q'_def J_def)
      ultimately show ?thesis using Z mt by simp
    qed
  qed
qed

lemma round_half_even_le: "round_half_even c k \<le> c div 10 ^ k + 1"
  by (simp add: round_half_even_def Let_def)

lemma ndigits_round_half_even:
  "ndigits (round_half_even c k) \<le> (if k < ndigits c then ndigits c - k + 1 else 1)"
proof (cases "k < ndigits c")
  case True
  define p where "p = ndigits c - k"
  have nd: "ndigits c = p + k" using True by (simp add: p_def)
  have "c < 10 ^ p * 10 ^ k" using ndigits_bound[of c] by (simp add: nd power_add)
  then have "c div 10 ^ k < 10 ^ p" by (simp add: less_mult_imp_div_less)
  then have "c div 10 ^ k + 1 \<le> 10 ^ p" by simp
  also have "(10::nat) ^ p < 10 ^ (p + 1)" by simp
  finally have "c div 10 ^ k + 1 < 10 ^ (p + 1)" .
  with round_half_even_le[of c k] have "round_half_even c k < 10 ^ (p + 1)" by simp
  then have "ndigits (round_half_even c k) \<le> p + 1" by (intro ndigits_le) simp_all
  with True show ?thesis by (simp add: p_def)
next
  case False
  then have "ndigits c \<le> k" by simp
  then have "(10::nat) ^ ndigits c \<le> 10 ^ k" by (rule power_increasing) simp
  with ndigits_bound[of c] have "c < 10 ^ k" by (rule less_le_trans)
  then have "c div 10 ^ k = 0" by simp
  with round_half_even_le[of c k] have "round_half_even c k < 10 ^ 1" by simp
  then have "ndigits (round_half_even c k) \<le> 1" by (intro ndigits_le) simp_all
  with False show ?thesis by simp
qed

lemma quantize_returns:
  assumes "context_Etiny \<le> t" "t \<le> context_Emax"
    and "adjusted d < context_Emax" "adjusted d - t + 1 < int context_prec"
  shows "\<exists>q. quantize d t = Inr q"
proof (cases "dcoeff d = 0")
  case True
  with assms(1,2) show ?thesis by (simp add: quantize_def dec_fix_def)
next
  case False
  define ans where "ans = rescale d t"
  from assms(3,4) have a3: "dexp d + int (ndigits (dcoeff d)) - 1 < context_Emax"
    and a4: "dexp d + int (ndigits (dcoeff d)) - 1 - t + 1 < int context_prec"
    by (simp_all add: adjusted_def)
  have b: "ndigits (dcoeff ans) \<le> context_prec \<and> adjusted ans \<le> context_Emax"
  proof (cases "t \<le> dexp d")
    case True
    define j where "j = nat (dexp d - t)"
    have ej: "dexp d = t + int j" using True by (simp add: j_def)
    have ans: "ans = Dec (dsign d) (dcoeff d * 10 ^ j) t"
      using False True by (simp add: ans_def rescale_def j_def)
    have "ndigits (dcoeff d * 10 ^ j) \<le> ndigits (dcoeff d) + j" by (rule ndigits_mult_pow)
    with a3 a4 show ?thesis unfolding ans adjusted_def ej by simp
  next
    case gt: False
    define k where "k = nat (t - dexp d)"
    have tk: "t = dexp d + int k" using gt by (simp add: k_def)
    have ans: "ans = Dec (dsign d) (round_half_even (dcoeff d) k) t"
      using False gt by (simp add: ans_def rescale_def k_def)
    have n: "ndigits (round_half_even (dcoeff d) k) \<le>
        (if k < ndigits (dcoeff d) then ndigits (dcoeff d) - k + 1 else 1)"
      by (rule ndigits_round_half_even)
    show ?thesis
    proof (cases "k < ndigits (dcoeff d)")
      case True
      with n a3 a4 show ?thesis unfolding ans adjusted_def tk by simp arith
    next
      case False
      with n have "ndigits (round_half_even (dcoeff d) k) \<le> 1" by simp
      with assms(2) show ?thesis unfolding ans adjusted_def by (simp add: context_defs)
    qed
  qed
  have e: "dexp ans = t" by (simp add: ans_def rescale_exp)
  have "dec_fix ans = Inr ans"
    using b assms(1,2) e by (intro dec_fix_id) simp_all
  with False assms b show ?thesis
    by (simp add: quantize_def Let_def ans_def[symmetric])
qed

subsection \<open>Rounding a Money\<close>

lemma Money_init_decimal:
  "Money_init_Decimal cfg d (CurrencyObj cur) =
     Inr \<lparr>amount = (if fst (places_override cfg (code cur) (DECIMAL_PLACES cfg, DECIMAL_PLACES cfg)) = 0
                     then Decimal_of_int (math_trunc d) else d),
          currency = cur,
          amount_decimal_places = fst (places_override cfg (code cur) (DECIMAL_PLACES cfg, DECIMAL_PLACES cfg)),
          display_decimal_places = snd (places_override cfg (code cur) (DECIMAL_PLACES cfg, DECIMAL_PLACES cfg))\<rparr>"
  by (simp add: Money_init_Decimal_def resolve_currency_def Let_def split: prod.splits)

lemma math_trunc_Decimal_of_int: "math_trunc (Decimal_of_int i) = i"
  by (simp add: math_trunc_def Decimal_of_int_def signed_def)

lemma Money_init_int:
  "Money_init_Decimal cfg (Decimal_of_int i) (CurrencyObj cur) =
     Inr \<lparr>amount = Decimal_of_int i,
          currency = cur,
          amount_decimal_places = fst (places_override cfg (code cur) (DECIMAL_PLACES cfg, DECIMAL_PLACES cfg)),
          display_decimal_places = snd (places_override cfg (code cur) (DECIMAL_PLACES cfg, DECIMAL_PLACES cfg))\<rparr>"
  by (simp add: Money_init_decimal math_trunc_Decimal_of_int)

lemma rescale_Decimal_of_int: "rescale (Decimal_of_int i) 0 = Decimal_of_int i"
  by (simp add: rescale_def Decimal_of_int_def)

text \<open>
  \<^verbatim>\<open>Money.__round__\<close> as it is written: the constructor applied to the rounded amount.
  The int that \<^verbatim>\<open>round\<close> gives without \<open>n\<close> has a numeral that the decimal module
  accepts whenever the adjusted exponent of the amount is below the limit of the module;
  the default context keeps every result of the arithmetic far below it.
\<close>

lemma rounded_int_digits:
  assumes "adjusted d < MAX_EMAX"
  shows "int (ndigits (nat \<bar>math_trunc (rescale d 0)\<bar>)) - 1 \<le> MAX_EMAX"
proof -
  have t: "nat \<bar>math_trunc (Dec s c 0)\<bar> = c" for s c
    by (simp add: math_trunc_def signed_def)
  have z: "0 \<le> MAX_EMAX" by (simp add: MAX_EMAX_def)
  show ?thesis
  proof (cases "dcoeff d = 0")
    case True
    then have "rescale d 0 = Dec (dsign d) 0 0" by (simp add: rescale_def)
    then show ?thesis using z by (simp add: t ndigits.simps)
  next
    case False
    show ?thesis
    proof (cases "0 \<le> dexp d")
      case True
      with False have r: "rescale d 0 = Dec (dsign d) (dcoeff d * 10 ^ nat (dexp d)) 0"
        by (simp add: rescale_def)
      have "int (ndigits (dcoeff d * 10 ^ nat (dexp d))) \<le> int (ndigits (dcoeff d)) + dexp d"
        using ndigits_mult_pow[of "dcoeff d" "nat (dexp d)"] True by simp
      with assms show ?thesis by (simp add: r t adjusted_def)
    next
      case neg: False
      define k where "k = nat (- dexp d)"
      from neg False have r: "rescale d 0 = Dec (dsign d) (round_half_even (dcoeff d) k) 0"
        by (simp add: rescale_def k_def)
      have b: "ndigits (round_half_even (dcoeff d) k) \<le>
                 (if k < ndigits (dcoeff d) then ndigits (dcoeff d) - k + 1 else 1)"
        by (rule ndigits_round_half_even)
      show ?thesis
      proof (cases "k < ndigits (dcoeff d)")
        case True
        with b have "int (ndigits (round_half_even (dcoeff d) k)) \<le> int (ndigits (dcoeff d)) - int k + 1"
          by simp
        moreover have "int k = - dexp d" using neg by (simp add: k_def)
        ultimately show ?thesis using assms by (simp add: r t adjusted_def)
      next
        case False
        with b have "ndigits (round_half_even (dcoeff d) k) \<le> 1" by simp
        then show ?thesis using z by (simp add: r t)
      qed
    qed
  qed
qed

lemma Money_round_constructor:
  assumes "adjusted (amount m) < MAX_EMAX"
  shows "map_sum id Built (Money_round cfg m n) =
           (case py_round (amount m) n of
              Inl e \<Rightarrow> Inl e
            | Inr (RoundedInt i) \<Rightarrow> Money_init cfg (AmountInt i) (CurrencyObj (currency m))
            | Inr (RoundedDecimal d) \<Rightarrow> Money_init cfg (AmountDecimal (Finite d)) (CurrencyObj (currency m)))"
proof (cases n)
  case None
  from Money_init_AmountInt[OF rounded_int_digits[OF assms]] None show ?thesis
    by (simp add: Money_round_def py_round_def)
next
  case (Some k)
  then show ?thesis
    by (simp add: Money_round_def py_round_def Money_init_AmountDecimal split: sum.splits)
qed

lemma Money_round_None_idem:
  assumes "Money_round cfg m None = Inr r"
  shows "Money_round cfg r None = Inr r"
proof -
  define i where "i = math_trunc (rescale (amount m) 0)"
  from assms have r: "Money_init_Decimal cfg (Decimal_of_int i) (CurrencyObj (currency m)) = Inr r"
    by (simp add: Money_round_def py_round_def i_def)
  then have a: "amount r = Decimal_of_int i" and c: "currency r = currency m"
    by (auto simp: Money_init_int)
  have "math_trunc (rescale (amount r) 0) = i"
    by (simp add: a rescale_Decimal_of_int math_trunc_Decimal_of_int)
  then show ?thesis using r c by (simp add: Money_round_def py_round_def)
qed

lemma Money_round_Some_idem:
  assumes "Money_round cfg m (Some k) = Inr r"
  shows "Money_round cfg r (Some k) = Inr r"
proof -
  from assms obtain q where q: "quantize (amount m) (- k) = Inr q"
    and r: "Money_init_Decimal cfg q (CurrencyObj (currency m)) = Inr r"
    by (auto simp: Money_round_def py_round_def split: sum.splits)
  define adp where "adp = fst (places_override cfg (code (currency m)) (DECIMAL_PLACES cfg, DECIMAL_PLACES cfg))"
  from r have a: "amount r = (if adp = 0 then Decimal_of_int (math_trunc q) else q)"
    and c: "currency r = currency m"
    by (auto simp: Money_init_decimal adp_def)
  have qd: "quantized q (- k)" using q by (rule quantize_quantized)
  show ?thesis
  proof (cases "adp = 0")
    case True
    from quantize_of_trunc[OF qd] obtain q' where
      q': "quantize (Decimal_of_int (math_trunc q)) (- k) = Inr q'" "math_trunc q' = math_trunc q"
      by blast
    have "Money_init_Decimal cfg q' (CurrencyObj (currency m)) = Inr r"
      using r True q'(2) by (simp add: Money_init_decimal adp_def)
    with q'(1) a c True show ?thesis by (simp add: Money_round_def py_round_def)
  next
    case False
    with a have "amount r = q" by simp
    with quantized_quantize[OF qd] r c show ?thesis by (simp add: Money_round_def py_round_def)
  qed
qed

lemma Money_round_idem:
  "(case Money_round cfg m n of Inl e \<Rightarrow> Inl e | Inr r \<Rightarrow> Money_round cfg r n) = Money_round cfg m n"
proof (cases "Money_round cfg m n")
  case (Inl e)
  then show ?thesis by simp
next
  case (Inr r)
  then have "Money_round cfg r n = Inr r"
    by (cases n) (simp_all add: Money_round_None_idem Money_round_Some_idem)
  with Inr show ?thesis by simp
qed

lemma round_half_even_nearest:
  fixes c k :: nat
  defines "q \<equiv> round_half_even c k"
  shows "2 * \<bar>int q * 10 ^ k - int c\<bar> \<le> 10 ^ k \<and>
         (2 * \<bar>int q * 10 ^ k - int c\<bar> < 10 ^ k \<or> even q)"
proof -
  define P where "P = (10::nat) ^ k"
  define Q where "Q = c div P"
  define R where "R = c mod P"
  have c: "c = Q * P + R" by (simp add: Q_def R_def)
  have R: "R < P" by (simp add: R_def P_def)
  have ip: "(10::int) ^ k = int P" by (simp add: P_def)
  show ?thesis
  proof (cases "P < 2 * R \<or> (2 * R = P \<and> odd Q)")
    case True
    then have q: "q = Q + 1" by (auto simp: q_def round_half_even_def Q_def R_def P_def Let_def)
    have "int q * int P - int c = int P - int R" by (simp add: q c algebra_simps)
    moreover have "int R < int P" using R by simp
    ultimately have d: "\<bar>int q * int P - int c\<bar> = int P - int R" by simp
    have e: "even q \<longleftrightarrow> odd Q" by (simp add: q)
    from True have "int P < 2 * int R \<or> (2 * int R = int P \<and> odd Q)" by auto
    then show ?thesis unfolding ip d e by auto
  next
    case False
    then have q: "q = Q" by (auto simp: q_def round_half_even_def Q_def R_def P_def Let_def)
    have d: "\<bar>int q * int P - int c\<bar> = int R" by (simp add: q c)
    have e: "even q \<longleftrightarrow> even Q" by (simp add: q)
    from False have "2 * int R < int P \<or> (2 * int R = int P \<and> even Q)" by auto
    then show ?thesis unfolding ip d e by auto
  qed
qed

lemma rescale_rounded: "rounded_half_even_to d n (rescale d (- n))"
proof (cases "dcoeff d = 0")
  case True
  then show ?thesis
    by (simp add: rounded_half_even_to_def rescale_def units_at_def multiple_at_def)
next
  case nz: False
  show ?thesis
  proof (cases "- n \<le> dexp d")
    case True
    then have "nat (- n - dexp d) = 0" by simp
    with nz True show ?thesis
      by (simp add: rounded_half_even_to_def rescale_def units_at_def multiple_at_def)
  next
    case False
    then have "nat (dexp d - (- n)) = 0" by simp
    with nz False round_half_even_nearest[of "dcoeff d" "nat (- n - dexp d)"] show ?thesis
      by (simp add: rounded_half_even_to_def rescale_def units_at_def multiple_at_def)
  qed
qed

lemma rounded_cong:
  assumes "rounded_half_even_to d n r" "multiple_at r' (- n)" "units_at r' (- n) = units_at r (- n)"
    "units_at r (- n) = 0 \<or> dsign r' = dsign r"
  shows "rounded_half_even_to d n r'"
  using assms by (auto simp: rounded_half_even_to_def Let_def)

lemma quantize_rescale:
  assumes "quantize d t = Inr q"
  shows "q = rescale d t"
proof (cases "dcoeff d = 0")
  case True
  with assms show ?thesis
    by (auto simp: quantize_def dec_fix_def rescale_def split: if_splits)
next
  case False
  have qd: "quantized q t" using assms by (rule quantize_quantized)
  define ans where "ans = rescale d t"
  from assms False have c: "\<not> context_Emax < adjusted ans" "\<not> context_prec < ndigits (dcoeff ans)"
    and f: "dec_fix ans = Inr q" and r: "context_Etiny \<le> t" "t \<le> context_Emax"
    by (auto simp: quantize_def Let_def ans_def split: if_splits)
  have "dec_fix ans = Inr ans"
    using c r by (intro dec_fix_id) (simp_all add: ans_def rescale_exp)
  with f show ?thesis by (simp add: ans_def)
qed

lemma Decimal_of_int_signed_gen: "Decimal_of_int (signed s c) = Dec (signed s c < 0) c 0"
  by (simp add: Decimal_of_int_def signed_def)

lemma signed_neg_iff: "signed s c < 0 \<longleftrightarrow> s \<and> 0 < c"
  by (simp add: signed_def)

lemma trunc_same_units:
  assumes "dexp q = t" "multiple_at q 0"
  defines "Z \<equiv> Decimal_of_int (math_trunc q)"
  shows "multiple_at Z t \<and> units_at Z t = units_at q t \<and> (units_at q t = 0 \<or> dsign Z = dsign q)"
proof -
  obtain s c where q: "q = Dec s c t" using assms(1) by (cases q) simp
  have u: "units_at q t = c" by (simp add: units_at_def q)
  have sq: "dsign q = s" by (simp add: q)
  have "multiple_at Z t \<and> units_at Z t = c \<and> (c = 0 \<or> dsign Z = s)"
  proof (cases "0 \<le> t")
    case True
    define T where "T = nat t"
    have tT: "t = int T" using True by (simp add: T_def)
    have "math_trunc q = signed s (c * 10 ^ T)"
      using True by (simp add: math_trunc_def q T_def)
    then have Z: "Z = Dec (signed s (c * 10 ^ T) < 0) (c * 10 ^ T) 0"
      by (simp add: Z_def Decimal_of_int_signed_gen)
    have sg: "c = 0 \<or> (signed s (c * 10 ^ T) < 0) = s" unfolding signed_neg_iff by auto
    have m: "multiple_at Z t" by (simp add: Z multiple_at_def tT)
    have un: "units_at Z t = c" by (cases "T = 0") (simp_all add: Z units_at_def tT)
    from sg have "c = 0 \<or> dsign Z = s" by (simp add: Z)
    with m un show ?thesis by simp
  next
    case False
    define J where "J = nat (- t)"
    have tJ: "t = - int J" using False by (simp add: J_def)
    from assms(2) False have m: "c mod 10 ^ J = 0" by (simp add: multiple_at_def q J_def)
    define w where "w = c div 10 ^ J"
    have cw: "c = w * 10 ^ J" using m div_mult_mod_eq[of c "10 ^ J"] by (simp add: w_def)
    have "math_trunc q = signed s w"
      using False by (simp add: math_trunc_def q J_def w_def)
    then have Z: "Z = Dec (signed s w < 0) w 0"
      by (simp add: Z_def Decimal_of_int_signed_gen)
    have sg: "c = 0 \<or> (signed s w < 0) = s" using cw unfolding signed_neg_iff by auto
    have ml: "multiple_at Z t" using False by (simp add: Z multiple_at_def)
    have un: "units_at Z t = c" using False by (simp add: Z units_at_def cw tJ)
    from sg have "c = 0 \<or> dsign Z = s" by (simp add: Z)
    with ml un show ?thesis by simp
  qed
  then show ?thesis by (simp add: u sq)
qed

lemma rescale_integral:
  assumes "0 \<le> t \<or> 0 \<le> dexp d"
  shows "multiple_at (rescale d t) 0"
proof (cases "0 \<le> t")
  case True
  then show ?thesis by (simp add: multiple_at_def rescale_exp)
next
  case False
  with assms have e: "0 \<le> dexp d" by simp
  have "nat (dexp d - t) = nat (dexp d) + nat (- t)" using e False by simp
  then have "dcoeff d * 10 ^ nat (dexp d - t) mod 10 ^ nat (- t) = 0"
    by (simp add: power_add)
  with e False show ?thesis by (simp add: multiple_at_def rescale_def)
qed

lemma Money_round_amount:
  assumes "Money_round cfg m n = Inr r"
    and "amount_decimal_places r \<noteq> 0 \<or> round_digits n \<le> 0 \<or> 0 \<le> dexp (amount m)"
  shows "rounded_half_even_to (amount m) (round_digits n) (amount r)"
proof -
  define d where "d = amount m"
  define t where "t = - round_digits n"
  define q where "q = rescale d t"
  have rq: "rounded_half_even_to d (round_digits n) q"
    using rescale_rounded[of d "round_digits n"] by (simp add: q_def t_def)
  have eq: "dexp q = t" by (simp add: q_def rescale_exp)
  have tr: "multiple_at q 0 \<Longrightarrow> rounded_half_even_to d (round_digits n) (Decimal_of_int (math_trunc q))"
    using trunc_same_units[OF eq] rounded_cong[OF rq] by (simp add: t_def)
  show ?thesis
  proof (cases n)
    case None
    then have t0: "t = 0" by (simp add: t_def round_digits_def)
    from assms(1) None
    have "Money_init_Decimal cfg (Decimal_of_int (math_trunc q)) (CurrencyObj (currency m)) = Inr r"
      by (simp add: Money_round_def py_round_def q_def t0 d_def)
    then have "amount r = Decimal_of_int (math_trunc q)" by (auto simp: Money_init_int)
    moreover have "multiple_at q 0" using t0 by (simp add: q_def rescale_integral)
    ultimately show ?thesis using tr by (simp add: d_def)
  next
    case (Some k)
    then have tk: "t = - k" by (simp add: t_def round_digits_def)
    from assms(1) Some obtain q' where q': "quantize d (- k) = Inr q'"
      and r: "Money_init_Decimal cfg q' (CurrencyObj (currency m)) = Inr r"
      by (auto simp: Money_round_def py_round_def d_def split: sum.splits)
    have qq: "q' = q" using quantize_rescale[OF q'] by (simp add: q_def tk)
    from r have a: "amount r = (if amount_decimal_places r = 0 then Decimal_of_int (math_trunc q) else q)"
      by (auto simp: Money_init_decimal qq)
    show ?thesis
    proof (cases "amount_decimal_places r = 0")
      case True
      with assms(2) have "0 \<le> t \<or> 0 \<le> dexp d" by (simp add: t_def d_def)
      then have "multiple_at q 0" unfolding q_def by (rule rescale_integral)
      with tr a True show ?thesis by (simp add: d_def)
    next
      case False
      with a rq show ?thesis by (simp add: d_def)
    qed
  qed
qed

lemma Money_round_attributes:
  assumes "Money_round cfg m n = Inr r"
  shows "currency r = currency m"
    and "(amount_decimal_places r, display_decimal_places r) =
           places_override cfg (code (currency m)) (DECIMAL_PLACES cfg, DECIMAL_PLACES cfg)"
  using assms
  by (auto simp: Money_round_def Money_init_int Money_init_decimal split: sum.splits rounded.splits)

lemma Money_round_returns:
  "(\<exists>r. Money_round cfg m n = Inr r) \<longleftrightarrow> (\<exists>v. py_round (amount m) n = Inr v)"
  by (auto simp: Money_round_def Money_init_int Money_init_decimal split: sum.splits rounded.splits)

lemma py_round_None: "\<exists>i. py_round d None = Inr (RoundedInt i)"
  by (simp add: py_round_def)

lemma Money_init_places:
  assumes "Money_init cfg a c = Inr (Built m)"
  shows "(amount_decimal_places m, display_decimal_places m) =
           places_override cfg (code (currency m)) (DECIMAL_PLACES cfg, DECIMAL_PLACES cfg)"
    and "amount_decimal_places m = 0 \<longrightarrow> dexp (amount m) = 0"
proof -
  from assms obtain d where m: "Money_init_Decimal cfg d c = Inr m"
    unfolding Money_init_Built by blast
  from m show "(amount_decimal_places m, display_decimal_places m) =
           places_override cfg (code (currency m)) (DECIMAL_PLACES cfg, DECIMAL_PLACES cfg)"
    unfolding Money_init_Decimal_def
    by (auto split: sum.splits prod.splits simp: Let_def)
  from m show "amount_decimal_places m = 0 \<longrightarrow> dexp (amount m) = 0"
    unfolding Money_init_Decimal_def
    by (auto split: sum.splits prod.splits simp: Let_def Decimal_of_int_def)
qed

text \<open>
  C7. Rounding twice to the same number of digits gives what rounding once gives: the
  same Money, or the same error when the decimal library refuses the rounding. A Money
  returned by \<^verbatim>\<open>round\<close> has the currency of the receiver, and its two precision
  attributes are those that the constructor resolves from the settings for that currency,
  whatever attributes the receiver carries. For a receiver built by the constructor, the
  amount returned is the amount of the receiver rounded half to even to \<open>n\<close> fractional
  digits. \<^verbatim>\<open>round\<close> returns a Money exactly when the rounding of the decimal returns:
  always without \<open>n\<close>, and with \<open>n\<close> whenever the exponent \<open>-n\<close> lies in the context
  and the rounded amount needs fewer than 28 digits.
\<close>

theorem Money_round_idempotent_half_even:
  "(case Money_round cfg m n of Inl e \<Rightarrow> Inl e | Inr r \<Rightarrow> Money_round cfg r n) =
     Money_round cfg m n \<and>
   (\<forall>r. Money_round cfg m n = Inr r \<longrightarrow>
      currency r = currency m \<and>
      (amount_decimal_places r, display_decimal_places r) =
        places_override cfg (code (currency m)) (DECIMAL_PLACES cfg, DECIMAL_PLACES cfg) \<and>
      ((\<exists>a c. Money_init cfg a c = Inr (Built m)) \<longrightarrow>
         rounded_half_even_to (amount m) (round_digits n) (amount r))) \<and>
   ((\<exists>r. Money_round cfg m n = Inr r) \<longleftrightarrow> (\<exists>v. py_round (amount m) n = Inr v)) \<and>
   (\<exists>r. Money_round cfg m None = Inr r) \<and>
   (\<forall>k. context_Etiny \<le> - k \<and> - k \<le> context_Emax \<and> adjusted (amount m) < context_Emax \<and>
        adjusted (amount m) + k + 1 < int context_prec \<longrightarrow>
        (\<exists>r. Money_round cfg m (Some k) = Inr r))"
proof (intro conjI allI impI)
  show "(case Money_round cfg m n of Inl e \<Rightarrow> Inl e | Inr r \<Rightarrow> Money_round cfg r n) =
     Money_round cfg m n"
    by (rule Money_round_idem)
next
  fix r assume "Money_round cfg m n = Inr r"
  then show "currency r = currency m" by (rule Money_round_attributes)
next
  fix r assume "Money_round cfg m n = Inr r"
  then show "(amount_decimal_places r, display_decimal_places r) =
        places_override cfg (code (currency m)) (DECIMAL_PLACES cfg, DECIMAL_PLACES cfg)"
    by (rule Money_round_attributes)
next
  fix r assume r: "Money_round cfg m n = Inr r" and "\<exists>a c. Money_init cfg a c = Inr (Built m)"
  then obtain a c where m: "Money_init cfg a c = Inr (Built m)" by blast
  have "amount_decimal_places r = amount_decimal_places m"
    using Money_round_attributes(2)[OF r] Money_init_places(1)[OF m] by (metis fst_conv)
  with Money_init_places(2)[OF m]
  have "amount_decimal_places r \<noteq> 0 \<or> round_digits n \<le> 0 \<or> 0 \<le> dexp (amount m)" by auto
  with r show "rounded_half_even_to (amount m) (round_digits n) (amount r)"
    by (rule Money_round_amount)
next
  show "(\<exists>r. Money_round cfg m n = Inr r) \<longleftrightarrow> (\<exists>v. py_round (amount m) n = Inr v)"
    by (rule Money_round_returns)
next
  show "\<exists>r. Money_round cfg m None = Inr r"
    using py_round_None[of "amount m"] Money_round_returns[of cfg m None] by auto
next
  fix k
  assume "context_Etiny \<le> - k \<and> - k \<le> context_Emax \<and> adjusted (amount m) < context_Emax \<and>
        adjusted (amount m) + k + 1 < int context_prec"
  then have "\<exists>q. quantize (amount m) (- k) = Inr q"
    by (intro quantize_returns) simp_all
  then have "\<exists>v. py_round (amount m) (Some k) = Inr v"
    by (auto simp: py_round_def)
  then show "\<exists>r. Money_round cfg m (Some k) = Inr r"
    using Money_round_returns[of cfg m "Some k"] by simp
qed

theorem Money_round_idempotent_half_even_witness:
  "Money_init yen_settings (AmountText ''2.345'') (CurrencyCode ''USD'') = Inr (Built usd_2_345) \<and>
   Money_round yen_settings usd_2_345 (Some 2) = Inr usd_2_34 \<and>
   Money_round yen_settings usd_2_34 (Some 2) = Inr usd_2_34 \<and>
   rounded_half_even_to (Dec False 2345 (- 3)) 2 (Dec False 234 (- 2)) \<and>
   Money_init yen_settings (AmountInt 1250) (CurrencyCode ''JPY'') = Inr (Built jpy_1250) \<and>
   Money_round yen_settings jpy_1250 (Some (- 2)) = Inr jpy_1200 \<and>
   Money_round yen_settings jpy_1200 (Some (- 2)) = Inr jpy_1200 \<and>
   rounded_half_even_to (Dec False 1250 0) (- 2) (Dec False 1200 0)"
proof -
  have i1: "Money_init yen_settings (AmountText ''2.345'') (CurrencyCode ''USD'') = Inr (Built usd_2_345)"
    by (simp add: init_defs yen_settings_def str_amount_def parse_defs usd_2_345_def)
  have lim: "int (ndigits (nat \<bar>1250\<bar>)) - 1 \<le> MAX_EMAX"
    by (simp add: ndigits.simps MAX_EMAX_def)
  have i2: "Money_init yen_settings (AmountInt 1250) (CurrencyCode ''JPY'') = Inr (Built jpy_1250)"
    by (simp add: Money_init_AmountInt[OF lim] Money_init_Decimal_def resolve_currency_def
        Decimal_of_int_def math_trunc_def signed_def get_currency_def upper_def upper_char_def
        places_override_def lookup_places_def yen_settings_def jpy_1250_def)
  have q1: "quantize (Dec False 2345 (- 3)) (- 2) = Inr (Dec False 234 (- 2))"
    by (simp add: quantize_def rescale_def round_half_even_def adjusted_def dec_fix_def
        context_defs ndigits.simps)
  have q2: "quantize (Dec False 1250 0) 2 = Inr (Dec False 12 2)"
    by (simp add: quantize_def rescale_def round_half_even_def adjusted_def dec_fix_def
        context_defs ndigits.simps)
  have r1: "Money_round yen_settings usd_2_345 (Some 2) = Inr usd_2_34"
    by (simp add: Money_round_def py_round_def usd_2_345_def q1 init_defs yen_settings_def
        usd_2_34_def)
  have r2: "Money_round yen_settings jpy_1250 (Some (- 2)) = Inr jpy_1200"
    by (simp add: Money_round_def py_round_def jpy_1250_def q2 init_defs yen_settings_def
        jpy_1200_def)
  have e1: "\<exists>a c. Money_init yen_settings a c = Inr (Built usd_2_345)" using i1 by blast
  have e2: "\<exists>a c. Money_init yen_settings a c = Inr (Built jpy_1250)" using i2 by blast
  from Money_round_idempotent_half_even[where cfg = yen_settings and m = usd_2_345 and n = "Some 2"]
    r1 e1
  have a1: "Money_round yen_settings usd_2_34 (Some 2) = Inr usd_2_34"
    and b1: "rounded_half_even_to (amount usd_2_345) (round_digits (Some 2)) (amount usd_2_34)"
    by simp_all
  from Money_round_idempotent_half_even[where cfg = yen_settings and m = jpy_1250 and n = "Some (- 2)"]
    r2 e2
  have a2: "Money_round yen_settings jpy_1200 (Some (- 2)) = Inr jpy_1200"
    and b2: "rounded_half_even_to (amount jpy_1250) (round_digits (Some (- 2))) (amount jpy_1200)"
    by simp_all
  from b1 have c1: "rounded_half_even_to (Dec False 2345 (- 3)) 2 (Dec False 234 (- 2))"
    by (simp add: usd_2_345_def usd_2_34_def round_digits_def)
  from b2 have c2: "rounded_half_even_to (Dec False 1250 0) (- 2) (Dec False 1200 0)"
    by (simp add: jpy_1250_def jpy_1200_def round_digits_def)
  from i1 i2 r1 r2 a1 a2 c1 c2 show ?thesis by simp
qed

subsection \<open>The receiver is left as it was\<close>

lemma allocate_frame:
  assumes "store_ok h" "objects h r = Some m" "allocate h x = (b, h')"
  shows "objects h' r = Some m" and "b \<noteq> r" and "store_ok h'" and "objects h' b = Some x"
proof -
  from assms(1,2) have lt: "r < next_ref h" by (auto simp: store_ok_def)
  from assms(3) have b: "b = next_ref h"
    and h': "h' = h\<lparr>objects := (objects h)(next_ref h \<mapsto> x), next_ref := Suc (next_ref h)\<rparr>"
    by (auto simp: allocate_def)
  from lt show "b \<noteq> r" by (simp add: b)
  from lt assms(2) show "objects h' r = Some m" by (simp add: h')
  show "objects h' b = Some x" by (simp add: h' b)
  from assms(1) show "store_ok h'" by (auto simp: store_ok_def h' less_Suc_eq)
qed

lemma round_in_store_frame:
  assumes "store_ok h" "objects h self = Some a"
  shows "objects (snd (round_in_store cfg h self n)) self = Some a"
proof (cases "Money_round cfg a n")
  case (Inl e)
  with assms(2) show ?thesis by (simp add: round_in_store_def)
next
  case (Inr r)
  obtain b h' where al: "allocate h r = (b, h')" by (cases "allocate h r")
  with assms(2) Inr have "snd (round_in_store cfg h self n) = h'"
    by (simp add: round_in_store_def)
  with allocate_frame(1)[OF assms al] show ?thesis by simp
qed

lemma round_in_store_fresh:
  assumes "store_ok h" "objects h self = Some a" "round_in_store cfg h self n = (Inr b, h')"
  shows "b \<noteq> self \<and> (\<exists>r. Money_round cfg a n = Inr r \<and> objects h' b = Some r)"
proof (cases "Money_round cfg a n")
  case (Inl e)
  with assms(2,3) show ?thesis by (simp add: round_in_store_def)
next
  case (Inr r)
  obtain b0 h0 where al: "allocate h r = (b0, h0)" by (cases "allocate h r")
  with assms(2,3) Inr have "b = b0" "h' = h0" by (simp_all add: round_in_store_def)
  with allocate_frame(2,4)[OF assms(1,2) al] Inr show ?thesis by simp
qed

lemma operator_in_store_frame:
  assumes "store_ok h" "objects h self = Some a"
  shows "objects (snd (operator_in_store operation cfg fops convert_money h self other)) self = Some a"
proof (cases "deref h other")
  case (Inl e)
  with assms(2) show ?thesis by (simp add: operator_in_store_def)
next
  case (Inr v)
  show ?thesis
  proof (cases "fst (Money_operator operation cfg fops convert_money a v)")
    case (Inl e)
    with assms(2) Inr show ?thesis by (simp add: operator_in_store_def)
  next
    case res: (Inr out)
    show ?thesis
    proof (cases out)
      case (ResMoney r)
      obtain b h' where al: "allocate h r = (b, h')" by (cases "allocate h r")
      with assms(2) Inr res ResMoney
      have "snd (operator_in_store operation cfg fops convert_money h self other) = h'"
        by (simp add: operator_in_store_def)
      with allocate_frame(1)[OF assms al] show ?thesis by simp
    next
      case ResSelf
      with assms(2) Inr res show ?thesis by (simp add: operator_in_store_def)
    next
      case (ResExpr x)
      with assms(2) Inr res show ?thesis by (simp add: operator_in_store_def)
    qed
  qed
qed

text \<open>
  C8. Let \<open>self\<close> refer to the Money \<open>a\<close> in a store. After \<^verbatim>\<open>round(a, n)\<close>, and
  after each of the four operators with any right operand, \<open>self\<close> still refers to
  \<open>a\<close>: its amount, its currency and its precision attributes are those from before the
  operation. A Money returned by \<^verbatim>\<open>round\<close> is another object than the receiver.
\<close>

theorem operations_leave_receiver_unchanged:
  assumes "store_ok h" and "objects h self = Some a"
  shows "objects (snd (round_in_store cfg h self n)) self = Some a \<and>
         objects (snd (operator_in_store operation cfg fops convert_money h self other)) self = Some a \<and>
         (\<forall>b h'. round_in_store cfg h self n = (Inr b, h') \<longrightarrow>
            b \<noteq> self \<and> (\<exists>r. Money_round cfg a n = Inr r \<and> objects h' b = Some r))"
  using round_in_store_frame[OF assms] operator_in_store_frame[OF assms]
    round_in_store_fresh[OF assms]
  by blast

theorem operations_leave_receiver_unchanged_witness:
  "store_ok example_store \<and> objects example_store 0 = Some usd_2_345 \<and>
   round_in_store convert_settings example_store 0 (Some 2) =
     (Inr 2, \<lparr>objects = [0 \<mapsto> usd_2_345, 1 \<mapsto> eur_10, 2 \<mapsto> usd_2_34], next_ref = 3\<rparr>) \<and>
   objects (snd (round_in_store convert_settings example_store 0 (Some 2))) 0 = Some usd_2_345 \<and>
   objects (snd (operator_in_store Add convert_settings unit_reflected stub_hook example_store 0
                   (RefMoney 1))) 0 = Some usd_2_345"
proof -
  have ok: "store_ok example_store"
    by (auto simp: store_ok_def example_store_def split: if_splits)
  have a: "objects example_store 0 = Some usd_2_345"
    by (simp add: example_store_def)
  have q1: "quantize (Dec False 2345 (- 3)) (- 2) = Inr (Dec False 234 (- 2))"
    by (simp add: quantize_def rescale_def round_half_even_def adjusted_def dec_fix_def
        context_defs ndigits.simps)
  have r1: "Money_round convert_settings usd_2_345 (Some 2) = Inr usd_2_34"
    by (simp add: Money_round_def py_round_def usd_2_345_def q1 init_defs convert_settings_def
        yen_settings_def usd_2_34_def)
  have r: "round_in_store convert_settings example_store 0 (Some 2) =
     (Inr 2, \<lparr>objects = [0 \<mapsto> usd_2_345, 1 \<mapsto> eur_10, 2 \<mapsto> usd_2_34], next_ref = 3\<rparr>)"
    by (simp add: round_in_store_def a r1 allocate_def) (simp add: example_store_def)
  from operations_leave_receiver_unchanged[OF ok a, where cfg = convert_settings and n = "Some 2"
      and operation = Add and fops = unit_reflected
      and convert_money = stub_hook and other = "RefMoney 1"]
  show ?thesis using ok a r by simp
qed

end
